theory Spec2Isabelle
  imports Complex_Main
begin

section \<open>BacSpecies: species identification from 16S rRNA BLAST hits\<close>

text \<open>
  A shallow embedding of \<^verbatim>\<open>BacSpecies.py\<close>. Python strings are \<^typ>\<open>string\<close>, lists are
  HOL lists, the reference dictionary is a map, and every exception the code can raise
  is a value of \<open>error\<close>, returned as \<open>Inl\<close>. The file system and the standard output are an
  explicit \<open>world\<close> that effectful functions take and return.

  Three things lie outside the source and are parameters of the model:
  \<^item> the builtin \<^verbatim>\<open>int\<close> on strings (\<open>py_int\<close>; \<open>None\<close> is Python's ValueError);
  \<^item> the external aligner: \<open>blastn inputfile refs threads\<close> is the decoded standard output of
    the \<^verbatim>\<open>blastn\<close> process that \<^verbatim>\<open>get_best_result\<close> starts;
  \<^item> Python's floats: the type \<open>'n\<close> of the float values, their comparison and their zero
    (the classes \<open>ord\<close> and \<open>zero\<close>, of which nothing is assumed), and the operations that
    the hit constructor applies to them (a record \<open>float_ops\<close>). The double-precision
    numbers of IEEE 754 are one instance, given further below.
\<close>

subsection \<open>Exceptions\<close>

datatype error = IndexError | KeyError | ValueError | ZeroDivisionError | FileNotFoundError

text \<open>Sequencing of computations that may raise: the first exception is the result.\<close>

definition ebind :: "error + 'a \<Rightarrow> ('a \<Rightarrow> error + 'b) \<Rightarrow> error + 'b" where
  "ebind m f = (case m of Inl e \<Rightarrow> Inl e | Inr x \<Rightarrow> f x)"

text \<open>\<^verbatim>\<open>xs[i]\<close> for a non-negative constant index: IndexError out of range.\<close>

definition item :: "'a list \<Rightarrow> nat \<Rightarrow> error + 'a" where
  "item xs i = (if i < length xs then Inr (xs ! i) else Inl IndexError)"

text \<open>\<^verbatim>\<open>d[k]\<close> on a dictionary: KeyError on a missing key.\<close>

definition getitem :: "('k \<rightharpoonup> 'v) \<Rightarrow> 'k \<Rightarrow> error + 'v" where
  "getitem d k = (case d k of None \<Rightarrow> Inl KeyError | Some v \<Rightarrow> Inr v)"

text \<open>The result of a builtin conversion: ValueError when the string is not a numeral.\<close>

definition converted :: "'a option \<Rightarrow> error + 'a" where
  "converted r = (case r of None \<Rightarrow> Inl ValueError | Some v \<Rightarrow> Inr v)"

subsection \<open>Strings\<close>

definition newline :: char where
  "newline = CHR 0x0A"

definition tab :: char where
  "tab = CHR 0x09"

definition space :: char where
  "space = CHR '' ''"

text \<open>\<^verbatim>\<open>s.split(sep)\<close> for a one-character separator: every occurrence of the separator
  ends a token, so the result has one token more than there are separators (empty tokens
  included) and is never empty.\<close>

fun split_on :: "char \<Rightarrow> string \<Rightarrow> string list" where
  "split_on sep [] = [[]]"
| "split_on sep (c # cs) =
     (if c = sep then [] # split_on sep cs
      else (case split_on sep cs of
              [] \<Rightarrow> [[c]]
            | w # ws \<Rightarrow> (c # w) # ws))"

text \<open>\<^verbatim>\<open>sep.join(xs)\<close>.\<close>

fun join :: "string \<Rightarrow> string list \<Rightarrow> string" where
  "join sep [] = []"
| "join sep [x] = x"
| "join sep (x # y # ys) = x @ sep @ join sep (y # ys)"

text \<open>\<^verbatim>\<open>s.find(c, start)\<close> for a one-character \<open>c\<close> and \<open>start \<ge> 0\<close> (the only calls the
  source makes): the index of the first occurrence at or after \<open>start\<close>, or \<open>-1\<close>.\<close>

definition str_find :: "string \<Rightarrow> char \<Rightarrow> int \<Rightarrow> int" where
  "str_find s c start =
     (let rest = drop (nat start) s
      in if c \<in> set rest
         then int (nat start + length (takeWhile (\<lambda>x. x \<noteq> c) rest))
         else - 1)"

text \<open>\<^verbatim>\<open>s[a:b]\<close> for non-negative \<open>a\<close> and \<open>b\<close>.\<close>

definition slice :: "string \<Rightarrow> int \<Rightarrow> int \<Rightarrow> string" where
  "slice s a b = take (nat b - nat a) (drop (nat a) s)"

text \<open>\<^verbatim>\<open>s.startswith(c)\<close> for a one-character prefix.\<close>

definition startswith :: "string \<Rightarrow> char \<Rightarrow> bool" where
  "startswith s c = (case s of [] \<Rightarrow> False | x # _ \<Rightarrow> x = c)"

text \<open>\<^verbatim>\<open>for line in file\<close> on a file opened in text mode: the lines of the decoded text,
  each with its terminating newline; only the last line can lack one.\<close>

fun file_lines :: "string \<Rightarrow> string list" where
  "file_lines [] = []"
| "file_lines (c # cs) =
     (if c = newline then [c] # file_lines cs
      else (case file_lines cs of
              [] \<Rightarrow> [[c]]
            | l # ls \<Rightarrow> (c # l) # ls))"

subsection \<open>The world: regular files and standard output\<close>

record world =
  files :: "string \<rightharpoonup> string"
  stdout :: "string list"

text \<open>\<^verbatim>\<open>print(s)\<close>.\<close>

definition print :: "string \<Rightarrow> world \<Rightarrow> world" where
  "print s w = w\<lparr>stdout := stdout w @ [s]\<rparr>"

text \<open>\<^verbatim>\<open>pathlib.Path(p).is_file()\<close>.\<close>

definition is_file :: "string \<Rightarrow> world \<Rightarrow> bool" where
  "is_file p w = (files w p \<noteq> None)"

text \<open>A \<^verbatim>\<open>write\<close> on a file opened with \<^verbatim>\<open>open(p, 'at')\<close>: the file is created when absent,
  and the text goes to its end.\<close>

definition write_append :: "string \<Rightarrow> string \<Rightarrow> world \<Rightarrow> world" where
  "write_append p text w =
     w\<lparr>files := (files w)(p \<mapsto> (case files w p of None \<Rightarrow> text | Some old \<Rightarrow> old @ text))\<rparr>"

text \<open>\<^verbatim>\<open>open(p, 'wt')\<close>: the file is created or truncated.\<close>

definition open_wt :: "string \<Rightarrow> world \<Rightarrow> world" where
  "open_wt p w = w\<lparr>files := (files w)(p \<mapsto> [])\<rparr>"

subsection \<open>\<^verbatim>\<open>process_reference\<close>\<close>

fun process_reference_loop ::
  "string list \<Rightarrow> (string \<rightharpoonup> string) \<Rightarrow> error + (string \<rightharpoonup> string)" where
  "process_reference_loop [] database = Inr database"
| "process_reference_loop (line # rest) database =
     (if startswith line (CHR ''>'') then
        (let line = drop 1 line;
             info = split_on space line
         in ebind (item info 0) (\<lambda>id.
            ebind (item info 1) (\<lambda>info1.
            ebind (item info 2) (\<lambda>info2.
              let name = info1 @ [space] @ info2
              in process_reference_loop rest (database(id \<mapsto> name))))))
      else process_reference_loop rest database)"

definition process_reference :: "string \<Rightarrow> world \<Rightarrow> error + (string \<rightharpoonup> string)" where
  "process_reference refs w =
     (case files w refs of
        None \<Rightarrow> Inl FileNotFoundError
      | Some text \<Rightarrow> process_reference_loop (file_lines text) Map.empty)"

subsection \<open>\<^verbatim>\<open>line_iterator\<close>\<close>

lemma takeWhile_neq_less:
  "c \<in> set xs \<Longrightarrow> length (takeWhile (\<lambda>x. x \<noteq> c) xs) < length xs"
  by (induction xs) auto

lemma str_find_hit:
  assumes "0 \<le> str_find s c start"
  shows "nat start \<le> nat (str_find s c start) \<and> nat (str_find s c start) < length s"
proof -
  let ?rest = "drop (nat start) s"
  from assms have mem: "c \<in> set ?rest"
    by (auto simp: str_find_def Let_def split: if_splits)
  then have "length (takeWhile (\<lambda>x. x \<noteq> c) ?rest) < length ?rest"
    by (rule takeWhile_neq_less)
  moreover from mem
  have "nat (str_find s c start) = nat start + length (takeWhile (\<lambda>x. x \<noteq> c) ?rest)"
    unfolding str_find_def Let_def by (simp only: if_True nat_int)
  ultimately show ?thesis by simp
qed

text \<open>The generator, as the list of the values it yields. \<open>line\<close> is the loop variable of
  the source, the index of the last newline found (\<open>-1\<close> at the start).\<close>

function line_iterator_from :: "string \<Rightarrow> int \<Rightarrow> string list" where
  "line_iterator_from line_breaks line =
     (let nextline = str_find line_breaks newline (line + 1)
      in if nextline < 0 then []
         else slice line_breaks (line + 1) nextline # line_iterator_from line_breaks nextline)"
  by pat_completeness auto
termination
proof (relation "measure (\<lambda>(s, line). length s - nat (line + 1))")
  show "wf (measure (\<lambda>(s, line). length s - nat (line + 1)))" by simp
next
  fix line_breaks :: string and line x :: int
  assume x: "x = str_find line_breaks newline (line + 1)" and nn: "\<not> x < 0"
  then have "0 \<le> str_find line_breaks newline (line + 1)" by simp
  from str_find_hit [OF this] x
  have "nat (line + 1) \<le> nat x" and "nat x < length line_breaks" by simp_all
  moreover from nn have "nat (x + 1) = Suc (nat x)" by simp
  ultimately
  show "((line_breaks, x), (line_breaks, line)) \<in> measure (\<lambda>(s, line). length s - nat (line + 1))"
    by simp
qed

declare line_iterator_from.simps [simp del]

definition line_iterator :: "string \<Rightarrow> string list" where
  "line_iterator line_breaks = line_iterator_from line_breaks (- 1)"

subsection \<open>\<^verbatim>\<open>BlastResult\<close>\<close>

record 'n BlastResult =
  qseqid :: string
  length_hit :: int
  pident :: 'n
  query_cov :: 'n

text \<open>The operations on Python's floats that the constructor uses, on a type \<open>'n\<close> of float
  values: \<^verbatim>\<open>float(s)\<close> on a string (\<open>None\<close> is ValueError), the conversion of an \<^verbatim>\<open>int\<close>
  operand, the literal \<^verbatim>\<open>100.0\<close>, the product \<^verbatim>\<open>x * y\<close> and the quotient \<^verbatim>\<open>x / y\<close> (\<open>None\<close> is
  ZeroDivisionError).\<close>

record 'n float_ops =
  float_of_str :: "string \<Rightarrow> 'n option"
  float_of_int :: "int \<Rightarrow> 'n"
  float_100 :: 'n
  float_mul :: "'n \<Rightarrow> 'n \<Rightarrow> 'n"
  float_truediv :: "'n \<Rightarrow> 'n \<Rightarrow> 'n option"

definition divided :: "'a option \<Rightarrow> error + 'a" where
  "divided r = (case r of None \<Rightarrow> Inl ZeroDivisionError | Some v \<Rightarrow> Inr v)"

text \<open>\<^verbatim>\<open>BlastResult.__init__\<close>. In \<^verbatim>\<open>100.0 * len(parts[11]) / float(parts[10])\<close> the left
  operand is evaluated first, so \<^verbatim>\<open>parts[11]\<close> is read before \<^verbatim>\<open>parts[10]\<close>; the product is
  that of the float \<^verbatim>\<open>100.0\<close> and the length converted to a float, and the quotient is a
  float division.\<close>

definition BlastResult_init ::
  "(string \<Rightarrow> int option) \<Rightarrow> 'n float_ops \<Rightarrow> string \<Rightarrow> error + 'n BlastResult" where
  "BlastResult_init py_int floats hit_string =
     (let parts = split_on tab hit_string
      in ebind (item parts 0) (\<lambda>parts0.
         ebind (item parts 8) (\<lambda>parts8.
         ebind (converted (py_int parts8)) (\<lambda>len.
         ebind (item parts 9) (\<lambda>parts9.
         ebind (converted (float_of_str floats parts9)) (\<lambda>pid.
         ebind (item parts 11) (\<lambda>parts11.
         ebind (item parts 10) (\<lambda>parts10.
         ebind (converted (float_of_str floats parts10)) (\<lambda>qlen.
         ebind (divided
                  (float_truediv floats
                     (float_mul floats (float_100 floats)
                        (float_of_int floats (int (length parts11))))
                     qlen)) (\<lambda>cov.
           Inr \<lparr>qseqid = parts0, length_hit = len, pident = pid,
                query_cov = cov\<rparr>))))))))))"

subsection \<open>\<^verbatim>\<open>get_best_result\<close>\<close>

text \<open>Lines 76 to 78: every yielded line is parsed, in order, before any selection.\<close>

fun blast_hits_loop ::
  "(string \<Rightarrow> int option) \<Rightarrow> 'n float_ops \<Rightarrow> string list \<Rightarrow>
   'n BlastResult list \<Rightarrow> error + 'n BlastResult list" where
  "blast_hits_loop py_int floats [] blast_hits = Inr blast_hits"
| "blast_hits_loop py_int floats (line # rest) blast_hits =
     ebind (BlastResult_init py_int floats line) (\<lambda>hit.
       blast_hits_loop py_int floats rest (blast_hits @ [hit]))"

text \<open>Lines 79 to 92: the selection loop, with the three local variables as arguments.\<close>

fun best_match_loop ::
  "(string \<rightharpoonup> string) \<Rightarrow> ('n::{ord,zero}) BlastResult list \<Rightarrow>
   string list \<Rightarrow> 'n \<Rightarrow> 'n \<Rightarrow> error + string list" where
  "best_match_loop database [] best_match best_cov best_pident = Inr best_match"
| "best_match_loop database (hit # hits) best_match best_cov best_pident =
     (if length_hit hit < 1000 then
        best_match_loop database hits best_match best_cov best_pident
      else if pident hit \<ge> best_pident \<and> query_cov hit \<ge> best_cov then
        ebind (getitem database (qseqid hit)) (\<lambda>name.
          if name \<in> set best_match then
            best_match_loop database hits best_match (query_cov hit) (pident hit)
          else
            best_match_loop database hits (best_match @ [name]) (query_cov hit) (pident hit))
      else best_match_loop database hits best_match best_cov best_pident)"

text \<open>\<^verbatim>\<open>out == 0\<close> compares a \<^verbatim>\<open>str\<close> with an \<^verbatim>\<open>int\<close>: values of the two types are never
  equal in Python.\<close>

definition str_eq_int :: "string \<Rightarrow> int \<Rightarrow> bool" where
  "str_eq_int s n = False"

definition no_hit_message :: "string \<Rightarrow> string" where
  "no_hit_message inputfile =
     ''The sequence file '' @ inputfile @ '' has no blast hit, please check the fasta file''"

definition get_best_result ::
  "(string \<Rightarrow> int option) \<Rightarrow> ('n::{ord,zero}) float_ops \<Rightarrow> (string \<Rightarrow> string \<Rightarrow> int \<Rightarrow> string) \<Rightarrow>
   string \<Rightarrow> string \<Rightarrow> int \<Rightarrow> (string \<rightharpoonup> string) \<Rightarrow> world \<Rightarrow> (error + string list) \<times> world" where
  "get_best_result py_int floats blastn inputfile refs threads database w =
     (let out = blastn inputfile refs threads;
          w = (if str_eq_int out 0 then print (no_hit_message inputfile) w else w)
      in (ebind (blast_hits_loop py_int floats (line_iterator out) []) (\<lambda>blast_hits.
            best_match_loop database blast_hits [] 0 0),
          w))"

subsection \<open>\<^verbatim>\<open>generate_output\<close> and \<^verbatim>\<open>output\<close>\<close>

definition headers :: "string list" where
  "headers = [''Sequence'', ''Best_match'', ''Problems'', ''Extra informations'']"

definition generate_output :: "string \<Rightarrow> world \<Rightarrow> world" where
  "generate_output outdir w =
     (if is_file outdir w then w
      else write_append outdir [newline]
             (write_append outdir (join [tab] headers) (open_wt outdir w)))"

text \<open>The columns of the row and the printed summary, by the three cases of the source.\<close>

definition output_line :: "string list \<Rightarrow> string \<Rightarrow> string list" where
  "output_line best_match inputfile =
     (if length best_match = 1 then [inputfile, best_match ! 0]
      else if length best_match = 0 then [inputfile, ''NA'', ''Unavailable'']
      else [inputfile, best_match ! 0, ''Multiple results''] @ drop 1 best_match)"

definition simple_output :: "string list \<Rightarrow> string \<Rightarrow> string" where
  "simple_output best_match inputfile =
     (if length best_match = 1 then inputfile @ '': '' @ best_match ! 0
      else if length best_match = 0 then inputfile @ '': '' @ ''Unavailable''
      else inputfile @ '': '' @ ''Multiple results, please check the output file'')"

definition output_report :: "string \<Rightarrow> string list \<Rightarrow> string \<Rightarrow> world \<Rightarrow> world" where
  "output_report outdir best_match inputfile w =
     write_append outdir [newline]
       (write_append outdir (join [tab] (output_line best_match inputfile))
          (print (simple_output best_match inputfile) w))"

subsection \<open>\<^verbatim>\<open>main\<close>\<close>

text \<open>Lines 150 to 153. There is no exception handler in the source: an exception raised
  for one input file ends the loop, and the world is as the earlier files left it.\<close>

fun main_loop ::
  "(string \<Rightarrow> int option) \<Rightarrow> ('n::{ord,zero}) float_ops \<Rightarrow> (string \<Rightarrow> string \<Rightarrow> int \<Rightarrow> string) \<Rightarrow>
   string list \<Rightarrow> string \<Rightarrow> int \<Rightarrow> (string \<rightharpoonup> string) \<Rightarrow> string \<Rightarrow> world \<Rightarrow> error option \<times> world" where
  "main_loop py_int floats blastn [] refs threads database outdir w = (None, w)"
| "main_loop py_int floats blastn (inputfile # rest) refs threads database outdir w =
     (case get_best_result py_int floats blastn inputfile refs threads database w of
        (Inl e, w') \<Rightarrow> (Some e, w')
      | (Inr best_match, w') \<Rightarrow>
          main_loop py_int floats blastn rest refs threads database outdir
            (output_report outdir best_match inputfile w'))"

section \<open>The specification's Best-Match Selector\<close>

text \<open>
  The selector as the specification words it (section 4.4), to be compared with
  \<open>best_match_loop\<close>: a running state of the best identity, the best coverage and the
  ordered matches, a step for one hit, and a single scan from left to right. A hit is
  resolved through the Reference Index, where a lookup must succeed (section 3).
\<close>

record 'n scan_state =
  best_identity :: 'n
  best_coverage :: 'n
  matches :: "string list"

definition scan_step ::
  "(string \<rightharpoonup> string) \<Rightarrow> ('n::{ord,zero}) scan_state \<Rightarrow> 'n BlastResult \<Rightarrow>
   error + 'n scan_state" where
  "scan_step reference_index st hit =
     (if length_hit hit < 1000 then Inr st
      else if pident hit \<ge> best_identity st \<and> query_cov hit \<ge> best_coverage st then
        (case reference_index (qseqid hit) of
           None \<Rightarrow> Inl KeyError
         | Some name \<Rightarrow>
             Inr \<lparr>best_identity = pident hit, best_coverage = query_cov hit,
                  matches = (if name \<in> set (matches st) then matches st
                             else matches st @ [name])\<rparr>)
      else Inr st)"

fun scan ::
  "(string \<rightharpoonup> string) \<Rightarrow> ('n::{ord,zero}) scan_state \<Rightarrow> 'n BlastResult list \<Rightarrow>
   error + 'n scan_state" where
  "scan reference_index st [] = Inr st"
| "scan reference_index st (hit # hits) =
     (case scan_step reference_index st hit of
        Inl e \<Rightarrow> Inl e
      | Inr st' \<Rightarrow> scan reference_index st' hits)"

definition best_match_selector ::
  "(string \<rightharpoonup> string) \<Rightarrow> ('n::{ord,zero}) BlastResult list \<Rightarrow> error + string list" where
  "best_match_selector reference_index hits =
     (case scan reference_index \<lparr>best_identity = 0, best_coverage = 0, matches = []\<rparr> hits of
        Inl e \<Rightarrow> Inl e
      | Inr st \<Rightarrow> Inr (matches st))"

text \<open>The hits the scan accepts, in the order it accepts them: those that pass the length
  filter and do not regress against the running bests, which each accepted hit replaces.\<close>

fun accepted :: "('n::{ord,zero}) BlastResult list \<Rightarrow> 'n \<Rightarrow> 'n \<Rightarrow> 'n BlastResult list" where
  "accepted [] min_identity min_coverage = []"
| "accepted (hit # hits) min_identity min_coverage =
     (if 1000 \<le> length_hit hit \<and> pident hit \<ge> min_identity \<and> query_cov hit \<ge> min_coverage
      then hit # accepted hits (pident hit) (query_cov hit)
      else accepted hits min_identity min_coverage)"

text \<open>The elements of a list in the order of their first occurrence.\<close>

fun first_seen :: "'a list \<Rightarrow> 'a list" where
  "first_seen [] = []"
| "first_seen (x # xs) = x # first_seen (filter (\<lambda>y. y \<noteq> x) xs)"

section \<open>The specification's Reference Index\<close>

text \<open>Section 4.1: the tokens of a header line are what follows the marker, split on single
  spaces; the entry of a header line is token 0 with tokens 1 and 2 joined by a space; the
  header lines are the lines that begin with the marker.\<close>

definition header_tokens :: "string \<Rightarrow> string list" where
  "header_tokens line = split_on space (drop 1 line)"

definition reference_entry :: "string \<Rightarrow> string \<times> string" where
  "reference_entry line =
     (header_tokens line ! 0, header_tokens line ! 1 @ [space] @ header_tokens line ! 2)"

definition header_lines :: "string list \<Rightarrow> string list" where
  "header_lines lines = filter (\<lambda>line. startswith line (CHR ''>'')) lines"

section \<open>The specification's Report Writer\<close>

text \<open>The text of a file, empty when the file does not exist.\<close>

definition file_text :: "world \<Rightarrow> string \<Rightarrow> string" where
  "file_text w p = (case files w p of None \<Rightarrow> [] | Some text \<Rightarrow> text)"

text \<open>Section 4.5: one summary line is printed, and one row, its columns joined by tabs and
  ended by a newline, goes to the end of the output table.\<close>

definition report :: "string \<Rightarrow> string list \<Rightarrow> string \<Rightarrow> world \<Rightarrow> world" where
  "report outdir columns summary w =
     w\<lparr>files := (files w)(outdir \<mapsto> file_text w outdir @ join [tab] columns @ [newline]),
       stdout := stdout w @ [summary]\<rparr>"

text \<open>The rows of a tab-separated text: its lines that a newline ends, each split at
  the tabs.\<close>

definition table_rows :: "string \<Rightarrow> string list list" where
  "table_rows text = map (split_on tab) (butlast (split_on newline text))"

text \<open>A text that holds neither a tab nor a newline.\<close>

definition plain :: "string \<Rightarrow> bool" where
  "plain s = (tab \<notin> set s \<and> newline \<notin> set s)"

section \<open>Python's floats as IEEE 754 doubles\<close>

text \<open>
  A Python \<^verbatim>\<open>float\<close> is a double-precision binary floating-point number of IEEE 754: a
  finite number, an infinity, or NaN. A finite double is given here by its value, a
  rational number; the two zeros are one value, which the program cannot tell apart (it
  compares floats and divides by them, and a division by either zero raises).
\<close>

datatype double = Finite rat | PosInf | NegInf | NaN

text \<open>The number of binary digits of a positive integer, and the powers of two.\<close>

function bit_length :: "int \<Rightarrow> nat" where
  "bit_length n = (if n \<le> 0 then 0 else Suc (bit_length (n div 2)))"
  by pat_completeness auto
termination
  by (relation "measure nat") auto

declare bit_length.simps [simp del]

definition pow2 :: "int \<Rightarrow> rat" where
  "pow2 e = (if 0 \<le> e then 2 ^ nat e else 1 / 2 ^ nat (- e))"

text \<open>The exponent of a positive rational \<open>r\<close>: the integer \<open>k\<close> with \<open>2^k \<le> r < 2^(k+1)\<close>. With
  \<open>r = p / q\<close> in lowest terms and \<open>d\<close> the difference of the numbers of digits of \<open>p\<close> and
  \<open>q\<close>, the exponent is \<open>d\<close> or \<open>d - 1\<close>.\<close>

definition floor_log2 :: "rat \<Rightarrow> int" where
  "floor_log2 r =
     (let (p, q) = quotient_of r;
          d = int (bit_length p) - int (bit_length q)
      in if pow2 d \<le> r then d else d - 1)"

text \<open>Rounding to the nearest integer, a tie going to the even one.\<close>

definition round_half_even :: "rat \<Rightarrow> int" where
  "round_half_even x =
     (let n = \<lfloor>x\<rfloor>; r = x - of_int n
      in if r < 1 / 2 then n
         else if 1 / 2 < r then n + 1
         else if even n then n else n + 1)"

text \<open>Rounding a rational to the nearest double, ties to even. A double has 53 significant
  binary digits, so the unit in the last place of a result of exponent \<open>k\<close> is \<open>2^(k - 52)\<close>;
  below the exponent \<open>-1022\<close> the doubles are subnormal and the unit stays \<open>2^(-1074)\<close>. A
  result that reaches \<open>2^1024\<close> is an infinity.\<close>

definition round_to_double :: "rat \<Rightarrow> double" where
  "round_to_double r =
     (if r = 0 then Finite 0
      else
        (let e = max (floor_log2 \<bar>r\<bar>) (- 1022) - 52;
             v = of_int (round_half_even (r / pow2 e)) * pow2 e
         in if pow2 1024 \<le> \<bar>v\<bar> then (if 0 < r then PosInf else NegInf)
            else Finite v))"

text \<open>The operations of the hit constructor. An \<^verbatim>\<open>int\<close> operand of a float product is
  converted to the nearest double (the operand here is the length of a string, far below
  the integers for which the conversion raises OverflowError). A product or a quotient of
  finite doubles is the exact result rounded; \<^verbatim>\<open>x / y\<close> raises ZeroDivisionError when \<open>y\<close> is
  zero, whatever \<open>x\<close> is; the infinities and NaN follow IEEE 754.\<close>

definition double_of_int :: "int \<Rightarrow> double" where
  "double_of_int n = round_to_double (of_int n)"

fun double_mul :: "double \<Rightarrow> double \<Rightarrow> double" where
  "double_mul NaN y = NaN"
| "double_mul x NaN = NaN"
| "double_mul (Finite a) (Finite b) = round_to_double (a * b)"
| "double_mul (Finite a) PosInf = (if a = 0 then NaN else if 0 < a then PosInf else NegInf)"
| "double_mul (Finite a) NegInf = (if a = 0 then NaN else if 0 < a then NegInf else PosInf)"
| "double_mul PosInf (Finite b) = (if b = 0 then NaN else if 0 < b then PosInf else NegInf)"
| "double_mul NegInf (Finite b) = (if b = 0 then NaN else if 0 < b then NegInf else PosInf)"
| "double_mul PosInf PosInf = PosInf"
| "double_mul PosInf NegInf = NegInf"
| "double_mul NegInf PosInf = NegInf"
| "double_mul NegInf NegInf = PosInf"

fun double_truediv :: "double \<Rightarrow> double \<Rightarrow> double option" where
  "double_truediv x (Finite b) =
     (if b = 0 then None
      else Some (case x of
                   Finite a \<Rightarrow> round_to_double (a / b)
                 | PosInf \<Rightarrow> (if 0 < b then PosInf else NegInf)
                 | NegInf \<Rightarrow> (if 0 < b then NegInf else PosInf)
                 | NaN \<Rightarrow> NaN))"
| "double_truediv x NaN = Some NaN"
| "double_truediv (Finite a) PosInf = Some (Finite 0)"
| "double_truediv (Finite a) NegInf = Some (Finite 0)"
| "double_truediv x PosInf = Some NaN"
| "double_truediv x NegInf = Some NaN"

text \<open>The float operations as Python has them, but for \<^verbatim>\<open>float\<close> on strings, which stays a
  parameter.\<close>

definition ieee_floats :: "(string \<Rightarrow> double option) \<Rightarrow> double float_ops" where
  "ieee_floats py_float =
     \<lparr>float_of_str = py_float,
      float_of_int = double_of_int,
      float_100 = Finite 100,
      float_mul = double_mul,
      float_truediv = double_truediv\<rparr>"

section \<open>Example inputs\<close>

text \<open>A reference index of two species and five hits: the third is too short, the fifth
  has a lower identity than the fourth, and the others are accepted one after the other.\<close>

definition example_database :: "string \<rightharpoonup> string" where
  "example_database = [''X'' \<mapsto> ''Species A'', ''Y'' \<mapsto> ''Species B'']"

definition example_hits :: "real BlastResult list" where
  "example_hits =
     [\<lparr>qseqid = ''Y'', length_hit = 1200, pident = 99.6, query_cov = 98\<rparr>,
      \<lparr>qseqid = ''X'', length_hit = 1300, pident = 99.6, query_cov = 99\<rparr>,
      \<lparr>qseqid = ''X'', length_hit = 500, pident = 100, query_cov = 100\<rparr>,
      \<lparr>qseqid = ''Y'', length_hit = 1250, pident = 99.8, query_cov = 99\<rparr>,
      \<lparr>qseqid = ''X'', length_hit = 1250, pident = 99.7, query_cov = 100\<rparr>]"

text \<open>A world with no file, and an aligner that finds no hit.\<close>

definition empty_world :: world where
  "empty_world = \<lparr>files = Map.empty, stdout = []\<rparr>"

definition no_hits :: "string \<Rightarrow> string \<Rightarrow> int \<Rightarrow> string" where
  "no_hits inputfile refs threads = []"

text \<open>A reference file of two records; the first header has five tokens, the second
  three.\<close>

definition example_reference :: string where
  "example_reference =
     ''>X Species A strain 1'' @ [newline] @ ''ACGT'' @ [newline] @
     ''>Y Species B'' @ [newline] @ ''TTGA'' @ [newline]"

definition reference_world :: world where
  "reference_world = \<lparr>files = [''reference_database'' \<mapsto> example_reference], stdout = []\<rparr>"

text \<open>The builtin \<^verbatim>\<open>int\<close> on the numerals the examples use, and an instance of the float
  operations: the float values are real numbers and the arithmetic is exact. The numbers
  that the examples put through it (99.5 and 1600 from the hit lines, the product 400 and
  the quotient 0.25) are all double-precision numbers, on which the operations of Python's
  floats are exact as well.\<close>

definition example_int :: "string \<Rightarrow> int option" where
  "example_int = [''1200'' \<mapsto> 1200, ''500'' \<mapsto> 500, ''12'' \<mapsto> 12]"

definition example_floats :: "real float_ops" where
  "example_floats =
     \<lparr>float_of_str = [''99.5'' \<mapsto> 99.5, ''1600'' \<mapsto> 1600],
      float_of_int = real_of_int,
      float_100 = 100,
      float_mul = (\<lambda>x y. x * y),
      float_truediv = (\<lambda>x y. if y = 0 then None else Some (x / y))\<rparr>"

text \<open>A hit line of twelve fields with a given query id, alignment length, query length and
  aligned query sequence, a line of two fields, and an aligner whose output depends on the
  input file: a malformed line for \<open>a.fasta\<close>, a hit of a known reference for \<open>b.fasta\<close>, a
  long and a short hit of an unknown reference for \<open>c.fasta\<close> and \<open>d.fasta\<close>.\<close>

definition example_line :: "string \<Rightarrow> string \<Rightarrow> string \<Rightarrow> string \<Rightarrow> string" where
  "example_line query_id len qlen qseq =
     join [tab] [query_id, ''contig_1'', ''1'', ''10'', ''101'', ''112'', ''0.0'', ''20.1'',
                 len, ''99.5'', qlen, qseq]"

definition short_line :: string where
  "short_line = ''X'' @ [tab] @ ''contig_1''"

definition example_blastn :: "string \<Rightarrow> string \<Rightarrow> int \<Rightarrow> string" where
  "example_blastn inputfile refs threads =
     (if inputfile = ''a.fasta'' then short_line @ [newline]
      else if inputfile = ''b.fasta'' then example_line ''X'' ''1200'' ''1600'' ''ACGT'' @ [newline]
      else if inputfile = ''c.fasta'' then example_line ''Q'' ''1200'' ''1600'' ''ACGT'' @ [newline]
      else if inputfile = ''d.fasta'' then example_line ''Q'' ''500'' ''1600'' ''ACGT'' @ [newline]
      else [])"

text \<open>The world in which the output table holds its header line only.\<close>

definition header_world :: world where
  "header_world = generate_output ''BS_results.txt'' empty_world"

text \<open>\<^verbatim>\<open>float\<close> on the numerals of the examples that compute with doubles.\<close>

definition example_double :: "string \<Rightarrow> double option" where
  "example_double =
     [''99.5'' \<mapsto> Finite (199 / 2), ''10'' \<mapsto> Finite 10, ''1500'' \<mapsto> Finite 1500]"

section \<open>Properties\<close>

subsection \<open>Splitting strings\<close>

lemma split_on_notin: "sep \<notin> set s \<Longrightarrow> split_on sep s = [s]"
  by (induction s) auto

lemma split_on_ne: "split_on sep s \<noteq> []"
  by (induction s) (auto split: list.splits)

lemma split_on_mem:
  assumes "sep \<in> set s"
  shows "split_on sep s =
    takeWhile (\<lambda>x. x \<noteq> sep) s #
    split_on sep (drop (Suc (length (takeWhile (\<lambda>x. x \<noteq> sep) s))) s)"
  using assms by (induction s) auto

lemma split_on_append:
  "sep \<notin> set a \<Longrightarrow> split_on sep (a @ sep # b) = a # split_on sep b"
  by (induction a) auto

lemma split_on_terminated:
  assumes "\<forall>l \<in> set ls. sep \<notin> set l" and "sep \<notin> set frag"
  shows "split_on sep (concat (map (\<lambda>l. l @ [sep]) ls) @ frag) = ls @ [frag]"
  using assms by (induction ls) (simp_all add: split_on_notin split_on_append)

subsection \<open>The line iterator\<close>

lemma line_iterator_from_hit:
  assumes "str_find s newline (line + 1) = n" and "0 \<le> n"
  shows "line_iterator_from s line = slice s (line + 1) n # line_iterator_from s n"
  using assms by (subst line_iterator_from.simps) (simp add: Let_def)

lemma line_iterator_from_miss:
  assumes "str_find s newline (line + 1) < 0"
  shows "line_iterator_from s line = []"
  using assms by (subst line_iterator_from.simps) (simp add: Let_def)

text \<open>Resuming after a newline at index \<open>p - 1\<close>, the generator yields the segments of the
  rest of the string but the last one.\<close>

lemma line_iterator_from_split:
  "line_iterator_from s (int p - 1) = butlast (split_on newline (drop p s))"
proof (induction "length s - p" arbitrary: p rule: less_induct)
  case less
  let ?rest = "drop p s"
  have p: "nat (int p - 1 + 1) = p" by simp
  show ?case
  proof (cases "newline \<in> set ?rest")
    case False
    then have "str_find s newline (int p - 1 + 1) < 0" by (simp add: str_find_def)
    then have "line_iterator_from s (int p - 1) = []" by (rule line_iterator_from_miss)
    with False show ?thesis by (simp add: split_on_notin)
  next
    case True
    define k where "k = length (takeWhile (\<lambda>x. x \<noteq> newline) ?rest)"
    have klt: "k < length ?rest"
      unfolding k_def using True by (rule takeWhile_neq_less)
    from True have nx: "str_find s newline (int p - 1 + 1) = int (p + k)"
      unfolding str_find_def Let_def k_def p by (simp only: if_True)
    have "line_iterator_from s (int p - 1) =
        slice s (int p - 1 + 1) (int (p + k)) # line_iterator_from s (int (p + k))"
    proof (rule line_iterator_from_hit [OF nx])
      show "0 \<le> int (p + k)" by (rule of_nat_0_le_iff)
    qed
    moreover have "slice s (int p - 1 + 1) (int (p + k)) = takeWhile (\<lambda>x. x \<noteq> newline) ?rest"
    proof -
      have "slice s (int p - 1 + 1) (int (p + k)) = take k ?rest"
        by (simp add: slice_def nat_add_distrib)
      also have "\<dots> = takeWhile (\<lambda>x. x \<noteq> newline) ?rest"
        unfolding k_def by (rule takeWhile_eq_take [symmetric])
      finally show ?thesis .
    qed
    moreover have "line_iterator_from s (int (p + k)) =
        butlast (split_on newline (drop (Suc (p + k)) s))"
      using less [of "Suc (p + k)"] klt by simp
    moreover have "drop (Suc (p + k)) s = drop (Suc k) ?rest"
      by (simp add: add.commute)
    ultimately have "line_iterator_from s (int p - 1) =
        takeWhile (\<lambda>x. x \<noteq> newline) ?rest # butlast (split_on newline (drop (Suc k) ?rest))"
      by simp
    also have "\<dots> = butlast (split_on newline ?rest)"
      using split_on_mem [OF True] split_on_ne [of newline "drop (Suc k) ?rest"]
      by (simp add: k_def)
    finally show ?thesis .
  qed
qed

lemma line_iterator_split: "line_iterator s = butlast (split_on newline s)"
  using line_iterator_from_split [of s 0] by (simp add: line_iterator_def)

text \<open>
  Claim C2. For every input string the line iterator yields exactly the newline-separated
  segments of the string, in order, but the final one, which is the fragment that no
  newline terminates: a text made of terminated lines \<open>ls\<close> followed by a newline-free
  fragment yields \<open>ls\<close> whatever the fragment is, so a record with no trailing newline is
  never yielded, and the empty string yields nothing.
\<close>

theorem line_iterator_yields_terminated_lines:
  "line_iterator s = butlast (split_on newline s) \<and>
   ((\<forall>l \<in> set ls. newline \<notin> set l) \<and> newline \<notin> set frag \<longrightarrow>
      line_iterator (concat (map (\<lambda>l. l @ [newline]) ls) @ frag) = ls) \<and>
   (newline \<notin> set frag \<longrightarrow> line_iterator frag = []) \<and>
   line_iterator [] = []"
proof (intro conjI impI)
  show "line_iterator s = butlast (split_on newline s)"
    by (rule line_iterator_split)
next
  assume "(\<forall>l \<in> set ls. newline \<notin> set l) \<and> newline \<notin> set frag"
  then show "line_iterator (concat (map (\<lambda>l. l @ [newline]) ls) @ frag) = ls"
    by (simp add: line_iterator_split split_on_terminated)
next
  assume "newline \<notin> set frag"
  then show "line_iterator frag = []"
    by (simp add: line_iterator_split split_on_notin)
next
  show "line_iterator [] = []"
    by (simp add: line_iterator_split)
qed

theorem line_iterator_yields_terminated_lines_witness:
  "line_iterator (''ab'' @ [newline] @ ''cd'' @ [newline] @ ''ef'')
     = butlast (split_on newline (''ab'' @ [newline] @ ''cd'' @ [newline] @ ''ef'')) \<and>
   newline \<notin> set ''ab'' \<and> newline \<notin> set ''cd'' \<and> newline \<notin> set ''ef'' \<and>
   line_iterator (concat (map (\<lambda>l. l @ [newline]) [''ab'', ''cd'']) @ ''ef'') = [''ab'', ''cd''] \<and>
   line_iterator ''ef'' = []"
  using line_iterator_yields_terminated_lines
    [of "''ab'' @ [newline] @ ''cd'' @ [newline] @ ''ef''" "[''ab'', ''cd'']" "''ef''"]
  by (simp add: newline_def)

subsection \<open>The selection loop\<close>

lemma best_match_loop_scan:
  "best_match_loop database hits best_match best_cov best_pident =
     (case scan database
             \<lparr>best_identity = best_pident, best_coverage = best_cov, matches = best_match\<rparr> hits of
        Inl e \<Rightarrow> Inl e
      | Inr st \<Rightarrow> Inr (matches st))"
proof (induction hits arbitrary: best_match best_cov best_pident)
  case Nil
  show ?case by simp
next
  case (Cons hit hits)
  show ?case
    by (simp add: Cons.IH scan_step_def ebind_def getitem_def split: option.split)
qed

text \<open>
  Claim C1. For every ordered sequence of hit records and every reference index, the
  selection loop of \<^verbatim>\<open>get_best_result\<close> returns exactly what the specification's scan
  returns: starting from best identity 0, best coverage 0 and no matches, every hit shorter
  than 1000 is skipped, every other hit whose identity and coverage both reach the running
  bests replaces them and appends its resolved species name unless the name is already
  there, every other hit changes nothing, and the matches are returned.
\<close>

theorem best_match_loop_is_selector_scan:
  "best_match_loop database hits [] 0 0 = best_match_selector database hits"
  by (simp add: best_match_loop_scan best_match_selector_def)

lemma set_first_seen: "set (first_seen xs) = set xs"
  by (induction xs rule: first_seen.induct) auto

lemma distinct_first_seen: "distinct (first_seen xs)"
  by (induction xs rule: first_seen.induct) (auto simp: set_first_seen)

lemma first_seen_snoc:
  "first_seen (xs @ [y]) = (if y \<in> set xs then first_seen xs else first_seen xs @ [y])"
  by (induction xs rule: first_seen.induct) auto

text \<open>The invariant of the loop: \<open>best_match\<close> holds the first occurrences of the names
  resolved so far (\<open>pre\<close>).\<close>

lemma best_match_loop_first_seen:
  assumes "best_match_loop database hits best_match best_cov best_pident = Inr result"
    and "map Some best_match = first_seen pre"
  shows "map Some result =
    first_seen (pre @ map (\<lambda>h. database (qseqid h)) (accepted hits best_pident best_cov))"
  using assms
proof (induction hits arbitrary: best_match best_cov best_pident pre)
  case Nil
  then show ?case by simp
next
  case (Cons hit hits)
  show ?case
  proof (cases "1000 \<le> length_hit hit \<and> pident hit \<ge> best_pident \<and> query_cov hit \<ge> best_cov")
    case False
    with Cons.prems
    have "best_match_loop database hits best_match best_cov best_pident = Inr result"
      by (auto split: if_splits)
    from Cons.IH [OF this Cons.prems(2)] False show ?thesis by auto
  next
    case True
    with Cons.prems(1) obtain name where name: "database (qseqid hit) = Some name"
      and run: "best_match_loop database hits
           (if name \<in> set best_match then best_match else best_match @ [name])
           (query_cov hit) (pident hit) = Inr result"
      by (auto simp: ebind_def getitem_def split: option.splits if_splits)
    have "set (map Some best_match) = set pre"
      using Cons.prems(2) by (simp add: set_first_seen)
    then have mem: "Some name \<in> set pre \<longleftrightarrow> name \<in> set best_match" by auto
    have "map Some (if name \<in> set best_match then best_match else best_match @ [name]) =
        first_seen (pre @ [Some name])"
      using Cons.prems(2) mem by (simp add: first_seen_snoc)
    from Cons.IH [OF run this] True name show ?thesis by simp
  qed
qed

text \<open>
  Claim C9. For every sequence of hit records, the result of the selection never holds a
  species name twice, and its names stand in the order in which their supporting hits were
  first accepted during the scan: the result is the list of the resolved names of the
  accepted hits, in acceptance order, each kept at its first occurrence. No sorting by
  identity or coverage takes place.
\<close>

theorem best_match_distinct_in_acceptance_order:
  assumes "best_match_loop database hits [] 0 0 = Inr result"
  shows "distinct result \<and>
    map Some result = first_seen (map (\<lambda>h. database (qseqid h)) (accepted hits 0 0))"
proof -
  have eq: "map Some result =
      first_seen ([] @ map (\<lambda>h. database (qseqid h)) (accepted hits 0 0))"
    using assms by (rule best_match_loop_first_seen) simp
  have "distinct (map Some result)"
    unfolding eq by (rule distinct_first_seen)
  then have "distinct result" by (simp add: distinct_map)
  with eq show ?thesis by simp
qed

lemma example_hits_result:
  "best_match_loop example_database example_hits [] 0 0 = Inr [''Species B'', ''Species A'']"
  by (simp add: example_database_def example_hits_def ebind_def getitem_def)

theorem best_match_distinct_in_acceptance_order_witness:
  "best_match_loop example_database example_hits [] 0 0 = Inr [''Species B'', ''Species A''] \<and>
   distinct [''Species B'', ''Species A''] \<and>
   map Some [''Species B'', ''Species A''] =
     first_seen (map (\<lambda>h. example_database (qseqid h)) (accepted example_hits 0 0))"
  using best_match_distinct_in_acceptance_order [OF example_hits_result] example_hits_result
  by simp

subsection \<open>The report writer\<close>

lemma output_report_report:
  "output_report outdir best_match inputfile w =
     report outdir (output_line best_match inputfile) (simple_output best_match inputfile) w"
  by (simp add: output_report_def report_def write_append_def file_text_def print_def
      split: option.split)

lemma split_on_sep_append:
  "split_on sep (xs @ sep # ys) = split_on sep xs @ split_on sep ys"
proof (induction xs)
  case Nil
  show ?case by simp
next
  case (Cons c cs)
  obtain w ws where "split_on sep cs = w # ws"
    using split_on_ne [of sep cs] by (cases "split_on sep cs") auto
  with Cons show ?case by simp
qed

lemma join_Cons: "join sep (x # xs) = x @ concat (map (\<lambda>y. sep @ y) xs)"
  by (induction xs arbitrary: x) simp_all

lemma split_on_join:
  assumes "\<forall>x \<in> set (x # xs). sep \<notin> set x"
  shows "split_on sep (join [sep] (x # xs)) = x # xs"
  using assms
proof (induction xs arbitrary: x)
  case Nil
  then show ?case by (simp add: split_on_notin)
next
  case (Cons y ys)
  then have "split_on sep (join [sep] (y # ys)) = y # ys" by simp
  moreover have "sep \<notin> set x" using Cons.prems by simp
  ultimately show ?case by (simp add: split_on_append)
qed

lemma notin_join:
  assumes "\<forall>x \<in> set xs. c \<notin> set x" and "c \<notin> set sep"
  shows "c \<notin> set (join sep xs)"
  using assms by (induction sep xs rule: join.induct) auto

lemma tab_neq_newline: "tab \<noteq> newline"
  by (simp add: tab_def newline_def)

lemma table_rows_append_row:
  assumes "newline \<notin> set row" and "old = [] \<or> last old = newline"
  shows "table_rows (old @ row @ [newline]) = table_rows old @ [split_on tab row]"
proof -
  have row: "split_on newline (row @ [newline]) = [row, []]"
    using assms(1) split_on_append [of newline row "[]"] by simp
  show ?thesis
  proof (cases "old = []")
    case True
    with row show ?thesis by (simp add: table_rows_def)
  next
    case False
    with assms(2) obtain pre where old: "old = pre @ [newline]"
      by (metis append_butlast_last_id)
    have "split_on newline old = split_on newline pre @ [[]]"
      unfolding old using split_on_sep_append [of newline pre "[]"] by simp
    moreover have "split_on newline (old @ row @ [newline]) = split_on newline pre @ [row, []]"
      unfolding old using split_on_sep_append [of newline pre "row @ [newline]"] row by simp
    ultimately show ?thesis
      by (simp add: table_rows_def butlast_append)
  qed
qed

lemma output_report_text:
  "output_report outdir best_match inputfile w =
     w\<lparr>files := (files w)(outdir \<mapsto>
          file_text w outdir @ join [tab] (output_line best_match inputfile) @ [newline]),
       stdout := stdout w @ [simple_output best_match inputfile]\<rparr>"
  by (simp add: output_report_def write_append_def file_text_def print_def split: option.split)

lemma output_line_plain:
  assumes "plain inputfile" and "\<forall>name \<in> set best_match. plain name"
  shows "\<forall>x \<in> set (output_line best_match inputfile). tab \<notin> set x \<and> newline \<notin> set x"
proof -
  have "plain ''NA''" "plain ''Unavailable''" "plain ''Multiple results''"
    by (simp_all add: plain_def tab_def newline_def)
  moreover have "best_match \<noteq> [] \<Longrightarrow> plain (best_match ! 0)"
    using assms(2) by (cases best_match) auto
  moreover have "\<forall>name \<in> set (drop 1 best_match). plain name"
    using assms(2) by (auto dest: in_set_dropD)
  ultimately show ?thesis
    using assms(1) by (auto simp: output_line_def plain_def)
qed

lemma output_line_cases:
  "output_line best_match inputfile =
     (case best_match of
        [] \<Rightarrow> [inputfile, ''NA'', ''Unavailable'']
      | [name] \<Rightarrow> [inputfile, name]
      | name # second # others \<Rightarrow> [inputfile, name, ''Multiple results''] @ second # others)"
  by (simp add: output_line_def split: list.split)

lemma file_text_output_report:
  "file_text (output_report outdir best_match inputfile w) outdir =
     file_text w outdir @ join [tab] (output_line best_match inputfile) @ [newline]"
  by (simp add: output_report_text file_text_def)

lemma stdout_output_report:
  "stdout (output_report outdir best_match inputfile w) =
     stdout w @ [simple_output best_match inputfile]"
  by (simp add: output_report_text)

lemma header_world_text:
  "file_text header_world ''BS_results.txt'' =
     ''Sequence'' @ [tab] @ ''Best_match'' @ [tab] @ ''Problems'' @ [tab] @
     ''Extra informations'' @ [newline]"
  by (simp add: header_world_def generate_output_def is_file_def empty_world_def
      write_append_def open_wt_def headers_def file_text_def)

text \<open>
  Claim C5, as amended. For every Best-Match Result and input file, the report writer
  prints the summary line of the case and appends to the output table the columns of the
  case, joined by tabs and ended by one newline: input file, \<open>NA\<close>, \<open>Unavailable\<close> for the
  empty result; input file and species name for a result of one element; input file, first
  species name, \<open>Multiple results\<close> and then every remaining name for a longer result. When
  neither the input file nor any species name holds a tab or a newline, and the table is
  empty or ends with a newline, the appended text is exactly one row of the table, with
  exactly these columns.
\<close>

theorem output_report_appends_columns:
  "output_report outdir [] inputfile w =
     w\<lparr>files := (files w)(outdir \<mapsto>
          file_text w outdir @ inputfile @ [tab] @ ''NA'' @ [tab] @ ''Unavailable'' @ [newline]),
       stdout := stdout w @ [inputfile @ '': Unavailable'']\<rparr> \<and>
   output_report outdir [name] inputfile w =
     w\<lparr>files := (files w)(outdir \<mapsto> file_text w outdir @ inputfile @ [tab] @ name @ [newline]),
       stdout := stdout w @ [inputfile @ '': '' @ name]\<rparr> \<and>
   output_report outdir (name # second # others) inputfile w =
     w\<lparr>files := (files w)(outdir \<mapsto>
          file_text w outdir @ inputfile @ [tab] @ name @ [tab] @ ''Multiple results'' @
          concat (map (\<lambda>other. tab # other) (second # others)) @ [newline]),
       stdout := stdout w @ [inputfile @ '': Multiple results, please check the output file'']\<rparr> \<and>
   (plain inputfile \<and> (\<forall>name \<in> set best_match. plain name) \<and>
    (file_text w outdir = [] \<or> last (file_text w outdir) = newline) \<longrightarrow>
      table_rows (file_text (output_report outdir best_match inputfile w) outdir) =
        table_rows (file_text w outdir) @
          [case best_match of
             [] \<Rightarrow> [inputfile, ''NA'', ''Unavailable'']
           | [name] \<Rightarrow> [inputfile, name]
           | name # second # others \<Rightarrow>
               [inputfile, name, ''Multiple results''] @ second # others])"
proof (intro conjI impI)
  assume a: "plain inputfile \<and> (\<forall>name \<in> set best_match. plain name) \<and>
    (file_text w outdir = [] \<or> last (file_text w outdir) = newline)"
  let ?line = "output_line best_match inputfile"
  from a have "plain inputfile" and "\<forall>name \<in> set best_match. plain name" by simp_all
  then have p: "\<forall>x \<in> set ?line. tab \<notin> set x \<and> newline \<notin> set x"
    by (rule output_line_plain)
  obtain c cs where line: "?line = c # cs"
    by (cases ?line) (auto simp: output_line_def split: if_splits)
  have "newline \<notin> set (join [tab] ?line)"
    using p tab_neq_newline by (intro notin_join) auto
  from table_rows_append_row [OF this, of "file_text w outdir"] a
  have "table_rows (file_text w outdir @ join [tab] ?line @ [newline]) =
      table_rows (file_text w outdir) @ [split_on tab (join [tab] ?line)]"
    by simp
  moreover have "split_on tab (join [tab] ?line) = ?line"
    using p unfolding line by (intro split_on_join) auto
  ultimately show "table_rows (file_text (output_report outdir best_match inputfile w) outdir) =
        table_rows (file_text w outdir) @
          [case best_match of
             [] \<Rightarrow> [inputfile, ''NA'', ''Unavailable'']
           | [name] \<Rightarrow> [inputfile, name]
           | name # second # others \<Rightarrow>
               [inputfile, name, ''Multiple results''] @ second # others]"
    by (simp add: output_report_text file_text_def output_line_cases)
qed (simp_all add: output_report_text output_line_def simple_output_def join_Cons)

theorem output_report_appends_columns_witness:
  "file_text (output_report ''BS_results.txt'' [] ''a.fasta'' header_world) ''BS_results.txt'' =
     file_text header_world ''BS_results.txt'' @
     ''a.fasta'' @ [tab] @ ''NA'' @ [tab] @ ''Unavailable'' @ [newline] \<and>
   stdout (output_report ''BS_results.txt'' [] ''a.fasta'' header_world) =
     [''a.fasta: Unavailable''] \<and>
   file_text (output_report ''BS_results.txt'' [''Species A''] ''a.fasta'' header_world)
     ''BS_results.txt'' =
     file_text header_world ''BS_results.txt'' @ ''a.fasta'' @ [tab] @ ''Species A'' @ [newline] \<and>
   stdout (output_report ''BS_results.txt'' [''Species A''] ''a.fasta'' header_world) =
     [''a.fasta: Species A''] \<and>
   file_text (output_report ''BS_results.txt'' [''Species A'', ''Species B'', ''Species C'']
       ''a.fasta'' header_world) ''BS_results.txt'' =
     file_text header_world ''BS_results.txt'' @
     ''a.fasta'' @ [tab] @ ''Species A'' @ [tab] @ ''Multiple results'' @ [tab] @
     ''Species B'' @ [tab] @ ''Species C'' @ [newline] \<and>
   stdout (output_report ''BS_results.txt'' [''Species A'', ''Species B'', ''Species C'']
       ''a.fasta'' header_world) =
     [''a.fasta: Multiple results, please check the output file''] \<and>
   plain ''a.fasta'' \<and> plain ''Species A'' \<and> plain ''Species B'' \<and> plain ''Species C'' \<and>
   last (file_text header_world ''BS_results.txt'') = newline \<and>
   table_rows (file_text header_world ''BS_results.txt'') =
     [[''Sequence'', ''Best_match'', ''Problems'', ''Extra informations'']] \<and>
   table_rows (file_text (output_report ''BS_results.txt''
       [''Species A'', ''Species B'', ''Species C''] ''a.fasta'' header_world) ''BS_results.txt'') =
     [[''Sequence'', ''Best_match'', ''Problems'', ''Extra informations''],
      [''a.fasta'', ''Species A'', ''Multiple results'', ''Species B'', ''Species C'']]"
proof -
  have p: "plain ''a.fasta''" "plain ''Species A''" "plain ''Species B''" "plain ''Species C''"
    by (simp_all add: plain_def tab_def newline_def)
  have l: "last (file_text header_world ''BS_results.txt'') = newline"
    by (simp add: header_world_text)
  have r: "table_rows (file_text header_world ''BS_results.txt'') =
     [[''Sequence'', ''Best_match'', ''Problems'', ''Extra informations'']]"
    by (simp add: header_world_text table_rows_def tab_def newline_def)
  have s: "stdout header_world = []"
    by (simp add: header_world_def generate_output_def is_file_def empty_world_def
        write_append_def open_wt_def)
  note t = output_report_appends_columns
    [of "''BS_results.txt''" "''a.fasta''" header_world "''Species A''" "''Species B''"
      "[''Species C'']" "[''Species A'', ''Species B'', ''Species C'']"]
  from conjunct2 [OF conjunct2 [OF conjunct2 [OF t]]] have "plain ''a.fasta'' \<and>
      (\<forall>name \<in> set [''Species A'', ''Species B'', ''Species C'']. plain name) \<and>
      (file_text header_world ''BS_results.txt'' = [] \<or>
       last (file_text header_world ''BS_results.txt'') = newline) \<longrightarrow>
    table_rows (file_text (output_report ''BS_results.txt''
       [''Species A'', ''Species B'', ''Species C''] ''a.fasta'' header_world) ''BS_results.txt'') =
    table_rows (file_text header_world ''BS_results.txt'') @
      [[''a.fasta'', ''Species A'', ''Multiple results''] @ [''Species B'', ''Species C'']]"
    by simp
  with p l r have rows: "table_rows (file_text (output_report ''BS_results.txt''
       [''Species A'', ''Species B'', ''Species C''] ''a.fasta'' header_world) ''BS_results.txt'') =
     [[''Sequence'', ''Best_match'', ''Problems'', ''Extra informations''],
      [''a.fasta'', ''Species A'', ''Multiple results'', ''Species B'', ''Species C'']]"
    by simp
  show ?thesis
    using p l r rows
    by (simp add: file_text_output_report stdout_output_report s output_line_def
        simple_output_def)
qed

text \<open>
  Claim C5 as stated fails for a species name that ends with a newline, which is what the
  reference index stores for a header line of three tokens: the text appended for the
  result of that one name is two lines, a row of the input file and the name without its
  newline, and an empty row. A name that holds a tab gives a row of three columns.
\<close>

theorem output_report_newline_in_name:
  "file_text (output_report ''BS_results.txt'' [''Species B'' @ [newline]] ''b.fasta'' header_world)
     ''BS_results.txt'' =
     file_text header_world ''BS_results.txt'' @
     ''b.fasta'' @ [tab] @ ''Species B'' @ [newline] @ [newline] \<and>
   table_rows (file_text (output_report ''BS_results.txt'' [''Species B'' @ [newline]] ''b.fasta''
       header_world) ''BS_results.txt'') =
     [[''Sequence'', ''Best_match'', ''Problems'', ''Extra informations''],
      [''b.fasta'', ''Species B''], [[]]] \<and>
   table_rows (file_text (output_report ''BS_results.txt'' [''Genus'' @ [tab] @ ''sp. X'']
       ''b.fasta'' header_world) ''BS_results.txt'') =
     [[''Sequence'', ''Best_match'', ''Problems'', ''Extra informations''],
      [''b.fasta'', ''Genus'', ''sp. X'']]"
proof (intro conjI)
  show "file_text (output_report ''BS_results.txt'' [''Species B'' @ [newline]] ''b.fasta''
      header_world) ''BS_results.txt'' =
     file_text header_world ''BS_results.txt'' @
     ''b.fasta'' @ [tab] @ ''Species B'' @ [newline] @ [newline]"
    by (simp add: file_text_output_report output_line_def)
next
  show "table_rows (file_text (output_report ''BS_results.txt'' [''Species B'' @ [newline]]
       ''b.fasta'' header_world) ''BS_results.txt'') =
     [[''Sequence'', ''Best_match'', ''Problems'', ''Extra informations''],
      [''b.fasta'', ''Species B''], [[]]]"
    by (simp add: file_text_output_report output_line_def header_world_text table_rows_def
        tab_def newline_def)
next
  show "table_rows (file_text (output_report ''BS_results.txt'' [''Genus'' @ [tab] @ ''sp. X'']
       ''b.fasta'' header_world) ''BS_results.txt'') =
     [[''Sequence'', ''Best_match'', ''Problems'', ''Extra informations''],
      [''b.fasta'', ''Genus'', ''sp. X'']]"
    by (simp add: file_text_output_report output_line_def header_world_text table_rows_def
        tab_def newline_def)
qed

subsection \<open>The output table\<close>

lemma get_best_result_world:
  "snd (get_best_result py_int floats blastn inputfile refs threads database w) = w"
  by (simp add: get_best_result_def Let_def str_eq_int_def)

lemma main_loop_appends:
  assumes "files w outdir = Some old"
  shows "\<exists>rows.
    files (snd (main_loop py_int floats blastn input refs threads database outdir w)) outdir
      = Some (old @ rows)"
  using assms
proof (induction input arbitrary: w old)
  case Nil
  then show ?case by simp
next
  case (Cons inputfile rest)
  obtain r w' where
    g: "get_best_result py_int floats blastn inputfile refs threads database w = (r, w')"
    by (cases "get_best_result py_int floats blastn inputfile refs threads database w")
  with get_best_result_world [of py_int floats blastn inputfile refs threads database w]
  have w': "w' = w" by simp
  show ?case
  proof (cases r)
    case (Inl e)
    with g w' Cons.prems show ?thesis by simp
  next
    case (Inr best_match)
    have "files (output_report outdir best_match inputfile w) outdir =
        Some (old @ join [tab] (output_line best_match inputfile) @ [newline])"
      using Cons.prems by (simp add: output_report_report report_def file_text_def)
    from Cons.IH [OF this] obtain rows where
      "files (snd (main_loop py_int floats blastn rest refs threads database outdir
         (output_report outdir best_match inputfile w))) outdir =
       Some (old @ join [tab] (output_line best_match inputfile) @ [newline] @ rows)"
      by auto
    with g w' Inr show ?thesis by auto
  qed
qed

text \<open>
  Claim C6. Creating the output table is idempotent with respect to an existing file:
  \<^verbatim>\<open>generate_output\<close> leaves a world where the file exists as it is, writes the header line of
  four columns only where the file does not exist, and does nothing when run again; the
  report writer and the whole loop over the input files, run on a table that exists, keep
  its text and only add rows after it, so the header is neither rewritten nor written again.
\<close>

theorem generate_output_idempotent_header:
  "(is_file outdir w \<longrightarrow> generate_output outdir w = w) \<and>
   (\<not> is_file outdir w \<longrightarrow>
      generate_output outdir w =
        w\<lparr>files := (files w)(outdir \<mapsto>
          ''Sequence'' @ [tab] @ ''Best_match'' @ [tab] @ ''Problems'' @ [tab] @
          ''Extra informations'' @ [newline])\<rparr>) \<and>
   generate_output outdir (generate_output outdir w) = generate_output outdir w \<and>
   (files w outdir = Some old \<longrightarrow>
      files (output_report outdir best_match inputfile (generate_output outdir w)) outdir =
        Some (old @ join [tab] (output_line best_match inputfile) @ [newline])) \<and>
   (files w outdir = Some old \<longrightarrow>
      (\<exists>rows. files (snd (main_loop py_int floats blastn input refs threads database outdir
                  (generate_output outdir w))) outdir = Some (old @ rows)))"
proof (intro conjI impI)
  show "generate_output outdir (generate_output outdir w) = generate_output outdir w"
    by (simp add: generate_output_def is_file_def write_append_def open_wt_def)
next
  assume old: "files w outdir = Some old"
  then have "generate_output outdir w = w"
    by (simp add: generate_output_def is_file_def)
  with old
  show "\<exists>rows. files (snd (main_loop py_int floats blastn input refs threads database outdir
                  (generate_output outdir w))) outdir = Some (old @ rows)"
    by (simp add: main_loop_appends)
qed (simp_all add: generate_output_def is_file_def write_append_def open_wt_def headers_def
      output_report_report report_def file_text_def)

theorem generate_output_idempotent_header_witness:
  "\<not> is_file ''BS_results.txt'' empty_world \<and>
   generate_output ''BS_results.txt'' empty_world =
     empty_world\<lparr>files := (files empty_world)(''BS_results.txt'' \<mapsto>
       ''Sequence'' @ [tab] @ ''Best_match'' @ [tab] @ ''Problems'' @ [tab] @
       ''Extra informations'' @ [newline])\<rparr> \<and>
   is_file ''BS_results.txt'' (generate_output ''BS_results.txt'' empty_world) \<and>
   generate_output ''BS_results.txt'' (generate_output ''BS_results.txt'' empty_world) =
     generate_output ''BS_results.txt'' empty_world \<and>
   files (generate_output ''BS_results.txt'' empty_world) ''BS_results.txt'' =
     Some (''Sequence'' @ [tab] @ ''Best_match'' @ [tab] @ ''Problems'' @ [tab] @
       ''Extra informations'' @ [newline]) \<and>
   files (output_report ''BS_results.txt'' [''Species A''] ''a.fasta''
       (generate_output ''BS_results.txt'' (generate_output ''BS_results.txt'' empty_world)))
     ''BS_results.txt'' =
     Some ((''Sequence'' @ [tab] @ ''Best_match'' @ [tab] @ ''Problems'' @ [tab] @
       ''Extra informations'' @ [newline]) @ ''a.fasta'' @ [tab] @ ''Species A'' @ [newline])"
  using generate_output_idempotent_header [of "''BS_results.txt''" empty_world]
    generate_output_idempotent_header [of "''BS_results.txt''"
      "generate_output ''BS_results.txt'' empty_world"
      "''Sequence'' @ [tab] @ ''Best_match'' @ [tab] @ ''Problems'' @ [tab] @
       ''Extra informations'' @ [newline]" "[''Species A'']" "''a.fasta''"]
  by (simp add: empty_world_def is_file_def output_line_def generate_output_def write_append_def
      open_wt_def headers_def output_report_def print_def)

subsection \<open>An input file without hits\<close>

text \<open>
  Claim C4, on an aligner whose output is the empty text: \<^verbatim>\<open>get_best_result\<close> returns the
  empty result and leaves the world as it was, so nothing is printed by it (the test
  \<^verbatim>\<open>out == 0\<close> compares a string with an integer and never holds); the loop then prints
  the summary \<open>Unavailable\<close> and appends the row input file, \<open>NA\<close>, \<open>Unavailable\<close>. The
  message of line 71 is not among the printed lines.
\<close>

theorem no_hit_message_not_printed:
  "get_best_result py_int floats no_hits inputfile refs threads database w = (Inr [], w) \<and>
   main_loop py_int floats no_hits [inputfile] refs threads database outdir w =
     (None, report outdir [inputfile, ''NA'', ''Unavailable''] (inputfile @ '': Unavailable'') w) \<and>
   stdout (snd (main_loop py_int floats no_hits [inputfile] refs threads database outdir w)) =
     stdout w @ [inputfile @ '': Unavailable'']"
  by (simp add: get_best_result_def Let_def str_eq_int_def no_hits_def line_iterator_split
      ebind_def output_report_report output_line_def simple_output_def report_def)

subsection \<open>The reference index\<close>

lemma loop_non_header:
  "\<not> startswith line (CHR ''>'') \<Longrightarrow>
   process_reference_loop (line # rest) database = process_reference_loop rest database"
  by simp

lemma loop_short_header:
  "startswith line (CHR ''>'') \<Longrightarrow> length (header_tokens line) < 3 \<Longrightarrow>
   process_reference_loop (line # rest) database = Inl IndexError"
  by (auto simp: header_tokens_def Let_def ebind_def item_def)

lemma loop_header:
  "startswith line (CHR ''>'') \<Longrightarrow> 3 \<le> length (header_tokens line) \<Longrightarrow>
   process_reference_loop (line # rest) database =
     process_reference_loop rest (database(fst (reference_entry line) \<mapsto> snd (reference_entry line)))"
  by (auto simp: header_tokens_def reference_entry_def Let_def ebind_def item_def)

lemma loop_all:
  assumes "\<forall>line \<in> set (header_lines lines). 3 \<le> length (header_tokens line)"
  shows "process_reference_loop lines database =
    Inr (database ++ map_of (rev (map reference_entry (header_lines lines))))"
  using assms
proof (induction lines arbitrary: database)
  case Nil
  then show ?case by (simp add: header_lines_def)
next
  case (Cons line rest)
  show ?case
  proof (cases "startswith line (CHR ''>'')")
    case False
    with Cons show ?thesis by (simp add: header_lines_def)
  next
    case True
    with Cons.prems have len: "3 \<le> length (header_tokens line)"
      and rest: "\<forall>line \<in> set (header_lines rest). 3 \<le> length (header_tokens line)"
      by (simp_all add: header_lines_def)
    have hl: "header_lines (line # rest) = line # header_lines rest"
      using True by (simp add: header_lines_def)
    show ?thesis
      unfolding loop_header [OF True len] Cons.IH [OF rest] hl
      by (cases "reference_entry line") (simp add: map_add_upd_left [symmetric] del: process_reference_loop.simps)
  qed
qed

lemma loop_some_short:
  assumes "\<exists>line \<in> set (header_lines lines). length (header_tokens line) < 3"
  shows "process_reference_loop lines database = Inl IndexError"
  using assms
proof (induction lines arbitrary: database)
  case Nil
  then show ?case by (simp add: header_lines_def)
next
  case (Cons line rest)
  show ?case
  proof (cases "startswith line (CHR ''>'')")
    case False
    with Cons show ?thesis by (simp add: header_lines_def)
  next
    case True
    show ?thesis
    proof (cases "length (header_tokens line) < 3")
      case short: True
      from loop_short_header [OF True short] show ?thesis .
    next
      case False
      then have len: "3 \<le> length (header_tokens line)" by simp
      from Cons.prems True False
      have "\<exists>line \<in> set (header_lines rest). length (header_tokens line) < 3"
        by (auto simp: header_lines_def)
      from Cons.IH [OF this] show ?thesis
        unfolding loop_header [OF True len] .
    qed
  qed
qed

lemma split_on_snoc:
  "d \<noteq> sep \<Longrightarrow>
   split_on sep (s @ [d]) = butlast (split_on sep s) @ [last (split_on sep s) @ [d]]"
  by (induction s) (auto simp: split_on_ne split: list.splits)

lemma split_on_chars:
  "t \<in> set (split_on sep s) \<Longrightarrow> set t \<subseteq> set s"
proof (induction s arbitrary: t)
  case Nil
  then show ?case by simp
next
  case (Cons c cs)
  show ?case
  proof (cases "c = sep")
    case True
    with Cons show ?thesis by auto
  next
    case False
    obtain w ws where sp: "split_on sep cs = w # ws"
      using split_on_ne [of sep cs] by (cases "split_on sep cs") auto
    with Cons.prems False have "t = c # w \<or> t \<in> set ws" by simp
    moreover have "set w \<subseteq> set cs" using Cons.IH [of w] sp by simp
    moreover have "t \<in> set ws \<Longrightarrow> set t \<subseteq> set cs" using Cons.IH [of t] sp by simp
    ultimately show ?thesis by auto
  qed
qed

lemma newline_neq_space: "newline \<noteq> space"
  by (simp add: newline_def space_def)

lemma terminated_tokens:
  assumes "toks = split_on space body"
  shows "header_tokens (CHR ''>'' # body @ [newline]) = butlast toks @ [last toks @ [newline]]"
  using assms by (simp add: header_tokens_def split_on_snoc newline_neq_space)

lemma nth_terminated:
  assumes "i < length toks"
  shows "(butlast toks @ [last toks @ [c]]) ! i =
    (if i = length toks - 1 then toks ! i @ [c] else toks ! i)"
proof (cases "i = length toks - 1")
  case True
  from assms have "toks \<noteq> []" by auto
  then have "last toks = toks ! (length toks - 1)" by (rule last_conv_nth)
  with True show ?thesis by (simp add: nth_append)
next
  case False
  with assms have "i < length toks - 1" by simp
  with False show ?thesis by (simp add: nth_append nth_butlast)
qed

lemma terminated_header_step:
  assumes "toks = split_on space body" and "3 \<le> length toks"
  shows "process_reference_loop ((CHR ''>'' # body @ [newline]) # rest) database =
    process_reference_loop rest
      (database(toks ! 0 \<mapsto>
         toks ! 1 @ [space] @ toks ! 2 @ (if length toks = 3 then [newline] else [])))"
proof -
  let ?line = "CHR ''>'' # body @ [newline]"
  have ht: "header_tokens ?line = butlast toks @ [last toks @ [newline]]"
    using assms(1) by (rule terminated_tokens)
  have len: "length (header_tokens ?line) = length toks"
    using assms(2) unfolding ht by simp
  have n0: "header_tokens ?line ! 0 = toks ! 0"
    and n1: "header_tokens ?line ! 1 = toks ! 1"
    and n2: "header_tokens ?line ! 2 = toks ! 2 @ (if length toks = 3 then [newline] else [])"
  proof -
    have "0 < length toks" "1 < length toks" "2 < length toks" using assms(2) by auto
    then show "header_tokens ?line ! 0 = toks ! 0"
      and "header_tokens ?line ! 1 = toks ! 1"
      and "header_tokens ?line ! 2 = toks ! 2 @ (if length toks = 3 then [newline] else [])"
      unfolding ht using assms(2) by (auto simp: nth_terminated)
  qed
  have "startswith ?line (CHR ''>'')" by (simp add: startswith_def)
  moreover have "3 \<le> length (header_tokens ?line)" using assms(2) len by simp
  ultimately show ?thesis
    by (simp only: loop_header reference_entry_def n0 n1 n2 fst_conv snd_conv append_assoc)
qed

lemma terminated_header_short:
  assumes "toks = split_on space body" and "length toks < 3"
  shows "process_reference_loop ((CHR ''>'' # body @ [newline]) # rest) database = Inl IndexError"
proof -
  let ?line = "CHR ''>'' # body @ [newline]"
  have ht: "header_tokens ?line = butlast toks @ [last toks @ [newline]]"
    using assms(1) by (rule terminated_tokens)
  have "toks \<noteq> []" using assms(1) by (simp add: split_on_ne)
  then have "length (header_tokens ?line) = length toks"
    unfolding ht by simp
  moreover have "startswith ?line (CHR ''>'')" by (simp add: startswith_def)
  ultimately show ?thesis using assms(2) by (simp only: loop_short_header)
qed

lemma name_newline_free:
  assumes "toks = split_on space body" and "newline \<notin> set body" and "3 \<le> length toks"
  shows "newline \<notin> set (toks ! 1 @ [space] @ toks ! 2)"
proof -
  have "toks ! 1 \<in> set toks" "toks ! 2 \<in> set toks" using assms(3) by simp_all
  then have "set (toks ! 1) \<subseteq> set body" "set (toks ! 2) \<subseteq> set body"
    unfolding assms(1) by (simp_all add: split_on_chars)
  with assms(2) show ?thesis using newline_neq_space by auto
qed
text \<open>
  Claim C8. For every reference file, \<^verbatim>\<open>process_reference\<close> runs over the lines of the
  file; a line that does not begin with the marker leaves the mapping as it is; a header
  line loses the marker and is split on single spaces, token 0 becomes the key and tokens 1
  and 2, joined by one space, the species name; a header line of fewer than three tokens
  raises IndexError. So a file whose header lines all have three tokens or more gives the
  mapping of their entries, a later entry replacing an earlier one of the same key, and a
  file with a shorter header line gives the error.
\<close>

theorem process_reference_builds_index:
  "(files w refs = Some content \<longrightarrow>
      process_reference refs w = process_reference_loop (file_lines content) Map.empty) \<and>
   (\<not> startswith line (CHR ''>'') \<longrightarrow>
      process_reference_loop (line # rest) database = process_reference_loop rest database) \<and>
   (startswith line (CHR ''>'') \<and> 3 \<le> length (header_tokens line) \<longrightarrow>
      process_reference_loop (line # rest) database =
        process_reference_loop rest
          (database(header_tokens line ! 0 \<mapsto>
             header_tokens line ! 1 @ '' '' @ header_tokens line ! 2))) \<and>
   (startswith line (CHR ''>'') \<and> length (header_tokens line) < 3 \<longrightarrow>
      process_reference_loop (line # rest) database = Inl IndexError) \<and>
   ((\<forall>line \<in> set (header_lines lines). 3 \<le> length (header_tokens line)) \<longrightarrow>
      process_reference_loop lines Map.empty =
        Inr (map_of (rev (map reference_entry (header_lines lines))))) \<and>
   ((\<exists>line \<in> set (header_lines lines). length (header_tokens line) < 3) \<longrightarrow>
      process_reference_loop lines Map.empty = Inl IndexError)"
proof (intro conjI impI)
  assume "files w refs = Some content"
  then show "process_reference refs w = process_reference_loop (file_lines content) Map.empty"
    by (simp add: process_reference_def)
next
  assume "\<not> startswith line (CHR ''>'')"
  then show "process_reference_loop (line # rest) database = process_reference_loop rest database"
    by (rule loop_non_header)
next
  assume "startswith line (CHR ''>'') \<and> 3 \<le> length (header_tokens line)"
  then show "process_reference_loop (line # rest) database =
        process_reference_loop rest
          (database(header_tokens line ! 0 \<mapsto>
             header_tokens line ! 1 @ '' '' @ header_tokens line ! 2))"
    by (simp add: loop_header reference_entry_def space_def del: process_reference_loop.simps)
next
  assume "startswith line (CHR ''>'') \<and> length (header_tokens line) < 3"
  then show "process_reference_loop (line # rest) database = Inl IndexError"
    by (simp add: loop_short_header del: process_reference_loop.simps)
next
  assume "\<forall>line \<in> set (header_lines lines). 3 \<le> length (header_tokens line)"
  then show "process_reference_loop lines Map.empty =
        Inr (map_of (rev (map reference_entry (header_lines lines))))"
    by (simp add: loop_all)
next
  assume "\<exists>line \<in> set (header_lines lines). length (header_tokens line) < 3"
  then show "process_reference_loop lines Map.empty = Inl IndexError"
    by (rule loop_some_short)
qed

lemma example_reference_lines:
  "file_lines example_reference =
     [''>X Species A strain 1'' @ [newline], ''ACGT'' @ [newline],
      ''>Y Species B'' @ [newline], ''TTGA'' @ [newline]]"
  by (simp add: example_reference_def newline_def)

theorem process_reference_builds_index_witness:
  "files reference_world ''reference_database'' = Some example_reference \<and>
   process_reference ''reference_database'' reference_world =
     Inr [''X'' \<mapsto> ''Species A'', ''Y'' \<mapsto> ''Species B'' @ [newline]] \<and>
   \<not> startswith (''ACGT'' @ [newline]) (CHR ''>'') \<and>
   process_reference_loop [''ACGT'' @ [newline]] Map.empty = Inr Map.empty \<and>
   startswith (''>Y Species B'' @ [newline]) (CHR ''>'') \<and>
   header_tokens (''>Y Species B'' @ [newline]) = [''Y'', ''Species'', ''B'' @ [newline]] \<and>
   process_reference_loop [''>Y Species B'' @ [newline]] Map.empty =
     Inr [''Y'' \<mapsto> ''Species B'' @ [newline]] \<and>
   header_tokens (''>Z Genus'' @ [newline]) = [''Z'', ''Genus'' @ [newline]] \<and>
   process_reference_loop [''>Z Genus'' @ [newline]] Map.empty = Inl IndexError \<and>
   header_lines (file_lines example_reference) =
     [''>X Species A strain 1'' @ [newline], ''>Y Species B'' @ [newline]] \<and>
   process_reference_loop (file_lines example_reference) Map.empty =
     Inr (map_of (rev (map reference_entry (header_lines (file_lines example_reference)))))"
  using process_reference_builds_index
      [where w = reference_world and refs = "''reference_database''" and content = example_reference
        and line = "''ACGT'' @ [newline]" and rest = "[]" and database = Map.empty
        and lines = "file_lines example_reference"]
    process_reference_builds_index
      [where line = "''>Y Species B'' @ [newline]" and rest = "[]" and database = Map.empty
        and lines = "[''>Z Genus'' @ [newline]]"]
    process_reference_builds_index
      [where line = "''>Z Genus'' @ [newline]" and rest = "[]" and database = Map.empty]
  by (simp add: reference_world_def example_reference_lines header_lines_def header_tokens_def
      reference_entry_def startswith_def space_def newline_def ebind_def item_def Let_def)

text \<open>
  Claim C10. A header line is split with its line terminator still on it. For a header
  line ended by a newline, whose content before the newline has the tokens \<open>toks\<close>: with
  exactly three tokens the stored species name ends with the newline; with four tokens or
  more the stored name is tokens 1 and 2 joined by a space and holds no newline; with
  fewer than three tokens no name is stored. Only the headers of four tokens or more
  yield a name free of the newline.
\<close>

theorem three_token_header_keeps_newline:
  assumes "newline \<notin> set body" and "toks = header_tokens (CHR ''>'' # body)"
  shows
   "(length toks = 3 \<longrightarrow>
       process_reference_loop ((CHR ''>'' # body @ [newline]) # rest) database =
         process_reference_loop rest
           (database(toks ! 0 \<mapsto> toks ! 1 @ '' '' @ toks ! 2 @ [newline]))) \<and>
    (4 \<le> length toks \<longrightarrow>
       process_reference_loop ((CHR ''>'' # body @ [newline]) # rest) database =
         process_reference_loop rest (database(toks ! 0 \<mapsto> toks ! 1 @ '' '' @ toks ! 2)) \<and>
       newline \<notin> set (toks ! 1 @ '' '' @ toks ! 2)) \<and>
    (length toks < 3 \<longrightarrow>
       process_reference_loop ((CHR ''>'' # body @ [newline]) # rest) database = Inl IndexError)"
proof -
  from assms(2) have toks: "toks = split_on space body" by (simp add: header_tokens_def)
  show ?thesis
  proof (intro conjI impI)
    assume "length toks = 3"
    then show "process_reference_loop ((CHR ''>'' # body @ [newline]) # rest) database =
         process_reference_loop rest
           (database(toks ! 0 \<mapsto> toks ! 1 @ '' '' @ toks ! 2 @ [newline]))"
      using terminated_header_step [OF toks, of rest database] by (simp add: space_def)
  next
    assume "4 \<le> length toks"
    then show "process_reference_loop ((CHR ''>'' # body @ [newline]) # rest) database =
         process_reference_loop rest (database(toks ! 0 \<mapsto> toks ! 1 @ '' '' @ toks ! 2))"
      using terminated_header_step [OF toks, of rest database] by (simp add: space_def)
  next
    assume "4 \<le> length toks"
    then have "3 \<le> length toks" by simp
    from name_newline_free [OF toks assms(1) this]
    show "newline \<notin> set (toks ! 1 @ '' '' @ toks ! 2)" by (simp add: space_def)
  next
    assume "length toks < 3"
    with toks show "process_reference_loop ((CHR ''>'' # body @ [newline]) # rest) database
        = Inl IndexError"
      by (rule terminated_header_short)
  qed
qed

theorem three_token_header_keeps_newline_witness:
  "newline \<notin> set ''Y Species B'' \<and>
   header_tokens (CHR ''>'' # ''Y Species B'') = [''Y'', ''Species'', ''B''] \<and>
   process_reference_loop [CHR ''>'' # ''Y Species B'' @ [newline]] Map.empty =
     Inr [''Y'' \<mapsto> ''Species B'' @ [newline]] \<and>
   newline \<notin> set ''X Species A strain 1'' \<and>
   header_tokens (CHR ''>'' # ''X Species A strain 1'') = [''X'', ''Species'', ''A'', ''strain'', ''1''] \<and>
   process_reference_loop [CHR ''>'' # ''X Species A strain 1'' @ [newline]] Map.empty =
     Inr [''X'' \<mapsto> ''Species A''] \<and>
   newline \<notin> set ''Species A'' \<and>
   newline \<notin> set ''Z Genus'' \<and>
   header_tokens (CHR ''>'' # ''Z Genus'') = [''Z'', ''Genus''] \<and>
   process_reference_loop [CHR ''>'' # ''Z Genus'' @ [newline]] Map.empty = Inl IndexError"
proof -
  have n: "newline \<notin> set ''Y Species B''" "newline \<notin> set ''X Species A strain 1''"
    "newline \<notin> set ''Z Genus''"
    by (simp_all add: newline_def)
  have t: "header_tokens (CHR ''>'' # ''Y Species B'') = [''Y'', ''Species'', ''B'']"
    "header_tokens (CHR ''>'' # ''X Species A strain 1'') = [''X'', ''Species'', ''A'', ''strain'', ''1'']"
    "header_tokens (CHR ''>'' # ''Z Genus'') = [''Z'', ''Genus'']"
    by (simp_all add: header_tokens_def space_def)
  from three_token_header_keeps_newline [OF n(1) t(1) [symmetric], of "[]" Map.empty]
    three_token_header_keeps_newline [OF n(2) t(2) [symmetric], of "[]" Map.empty]
    three_token_header_keeps_newline [OF n(3) t(3) [symmetric], of "[]" Map.empty]
    n t
  show ?thesis by simp
qed

subsection \<open>The hit constructor\<close>

lemma BlastResult_init_Inr:
  assumes "BlastResult_init py_int floats hit_string = Inr hit"
  shows "\<exists>len pid qlen cov.
    11 < length (split_on tab hit_string) \<and>
    py_int (split_on tab hit_string ! 8) = Some len \<and>
    float_of_str floats (split_on tab hit_string ! 9) = Some pid \<and>
    float_of_str floats (split_on tab hit_string ! 10) = Some qlen \<and>
    float_truediv floats
      (float_mul floats (float_100 floats)
         (float_of_int floats (int (length (split_on tab hit_string ! 11)))))
      qlen = Some cov \<and>
    hit = \<lparr>qseqid = split_on tab hit_string ! 0, length_hit = len, pident = pid,
           query_cov = cov\<rparr>"
  using assms
  by (auto simp: BlastResult_init_def Let_def ebind_def item_def converted_def divided_def
      split: if_splits option.splits sum.splits)

lemma split_gapped_line:
  "split_on tab (example_line ''X'' ''12'' ''10'' ''ACGT-ACG-TAC'') =
    [''X'', ''contig_1'', ''1'', ''10'', ''101'', ''112'', ''0.0'', ''20.1'',
     ''12'', ''99.5'', ''10'', ''ACGT-ACG-TAC'']"
  by (simp add: example_line_def tab_def)

lemma split_rounded_line:
  "split_on tab (example_line ''X'' ''1200'' ''1500'' ''ACGT'') =
    [''X'', ''contig_1'', ''1'', ''10'', ''101'', ''112'', ''0.0'', ''20.1'',
     ''1200'', ''99.5'', ''1500'', ''ACGT'']"
  by (simp add: example_line_def tab_def)

lemma round_half_even_of_int: "round_half_even (of_int n) = n"
  by (simp add: round_half_even_def)

lemma round_half_even_numeral: "round_half_even (numeral k) = numeral k"
  using round_half_even_of_int [of "numeral k"] by simp

lemma floor_log2_examples:
  "floor_log2 4 = 2 \<and> floor_log2 400 = 8 \<and> floor_log2 12 = 3 \<and> floor_log2 1200 = 10 \<and>
   floor_log2 120 = 6 \<and> floor_log2 (4 / 15) = - 2 \<and>
   round_half_even (72057594037927936 / 15) = 4803839602528529"
  by code_simp

lemma round_to_double_examples:
  "round_to_double 4 = Finite 4"
  "round_to_double 400 = Finite 400"
  "round_to_double 12 = Finite 12"
  "round_to_double 1200 = Finite 1200"
  "round_to_double 120 = Finite 120"
  "round_to_double (4 / 15) = Finite (4803839602528529 / 18014398509481984)"
  by (simp_all add: round_to_double_def floor_log2_examples pow2_def Let_def
      round_half_even_numeral)

lemma double_100_times_4: "double_mul (Finite 100) (double_of_int 4) = Finite 400"
  by (simp add: double_of_int_def round_to_double_examples)

lemma double_400_by_1500:
  "double_truediv (Finite 400) (Finite 1500) =
     Some (Finite (4803839602528529 / 18014398509481984))"
  by (simp add: round_to_double_examples)

lemma double_100_times_12: "double_mul (Finite 100) (double_of_int 12) = Finite 1200"
  by (simp add: double_of_int_def round_to_double_examples)

lemma double_1200_by_10: "double_truediv (Finite 1200) (Finite 10) = Some (Finite 120)"
  by (simp add: round_to_double_examples)

lemma example_gapped:
  "BlastResult_init example_int (ieee_floats example_double)
     (example_line ''X'' ''12'' ''10'' ''ACGT-ACG-TAC'') =
     Inr \<lparr>qseqid = ''X'', length_hit = 12, pident = Finite (199 / 2), query_cov = Finite 120\<rparr>"
  by (simp add: split_gapped_line BlastResult_init_def Let_def ebind_def item_def
      converted_def divided_def example_int_def example_double_def ieee_floats_def
      double_100_times_12 double_1200_by_10 del: double_mul.simps double_truediv.simps)

lemma example_rounded:
  "BlastResult_init example_int (ieee_floats example_double)
     (example_line ''X'' ''1200'' ''1500'' ''ACGT'') =
     Inr \<lparr>qseqid = ''X'', length_hit = 1200, pident = Finite (199 / 2),
          query_cov = Finite (4803839602528529 / 18014398509481984)\<rparr>"
  by (simp add: split_rounded_line BlastResult_init_def Let_def ebind_def item_def
      converted_def divided_def example_int_def example_double_def ieee_floats_def
      double_100_times_4 double_400_by_1500 del: double_mul.simps double_truediv.simps)

text \<open>
  Claim C7, as amended. With Python's floats as IEEE 754 doubles: for every hit record that
  \<^verbatim>\<open>BlastResult\<close> constructs from a line, the query coverage is the float quotient of the
  float product of \<open>100.0\<close> and the length of the aligned query sequence (field 11) by the
  float of the query length (field 10). The product and the quotient are each rounded to
  the nearest double, so the value is in general not the exact quotient. Nothing clamps
  it, and for some inputs it exceeds 100.
\<close>

theorem query_cov_is_double_quotient:
  assumes "BlastResult_init py_int (ieee_floats py_float) hit_string = Inr hit"
  shows "(\<exists>qlen.
      11 < length (split_on tab hit_string) \<and>
      py_float (split_on tab hit_string ! 10) = Some qlen \<and>
      double_truediv
        (double_mul (Finite 100) (double_of_int (int (length (split_on tab hit_string ! 11)))))
        qlen = Some (query_cov hit)) \<and>
    (\<exists>line cov. BlastResult_init example_int (ieee_floats example_double) line =
        Inr \<lparr>qseqid = ''X'', length_hit = 12, pident = Finite (199 / 2), query_cov = Finite cov\<rparr>
        \<and> 100 < cov)"
proof
  from BlastResult_init_Inr [OF assms]
  show "\<exists>qlen.
      11 < length (split_on tab hit_string) \<and>
      py_float (split_on tab hit_string ! 10) = Some qlen \<and>
      double_truediv
        (double_mul (Finite 100) (double_of_int (int (length (split_on tab hit_string ! 11)))))
        qlen = Some (query_cov hit)"
    by (auto simp: ieee_floats_def simp del: double_mul.simps double_truediv.simps)
next
  have "(100::rat) < 120" by simp
  with example_gapped
  show "\<exists>line cov. BlastResult_init example_int (ieee_floats example_double) line =
        Inr \<lparr>qseqid = ''X'', length_hit = 12, pident = Finite (199 / 2), query_cov = Finite cov\<rparr>
        \<and> 100 < cov"
    by blast
qed

theorem query_cov_is_double_quotient_witness:
  "BlastResult_init example_int (ieee_floats example_double)
     (example_line ''X'' ''12'' ''10'' ''ACGT-ACG-TAC'') =
     Inr \<lparr>qseqid = ''X'', length_hit = 12, pident = Finite (199 / 2), query_cov = Finite 120\<rparr> \<and>
   example_double (split_on tab (example_line ''X'' ''12'' ''10'' ''ACGT-ACG-TAC'') ! 10) =
     Some (Finite 10) \<and>
   length (split_on tab (example_line ''X'' ''12'' ''10'' ''ACGT-ACG-TAC'') ! 11) = 12 \<and>
   double_mul (Finite 100) (double_of_int 12) = Finite 1200 \<and>
   double_truediv (Finite 1200) (Finite 10) = Some (Finite 120) \<and>
   (100::rat) < 120"
  using query_cov_is_double_quotient [OF example_gapped] example_gapped
  by (simp add: split_gapped_line example_double_def double_100_times_12 double_1200_by_10
      del: double_mul.simps double_truediv.simps)

text \<open>
  Claim C7 as stated fails: for a query length of 1500 and an aligned query sequence of 4
  characters the coverage is the double \<open>4803839602528529 / 2^54\<close>, which is not the
  quotient \<open>100 * 4 / 1500\<close>.
\<close>

theorem query_cov_not_exact_quotient:
  "BlastResult_init example_int (ieee_floats example_double)
     (example_line ''X'' ''1200'' ''1500'' ''ACGT'') =
     Inr \<lparr>qseqid = ''X'', length_hit = 1200, pident = Finite (199 / 2),
          query_cov = Finite (4803839602528529 / 18014398509481984)\<rparr> \<and>
   example_double (split_on tab (example_line ''X'' ''1200'' ''1500'' ''ACGT'') ! 10) =
     Some (Finite 1500) \<and>
   length (split_on tab (example_line ''X'' ''1200'' ''1500'' ''ACGT'') ! 11) = 4 \<and>
   (4803839602528529 / 18014398509481984 :: rat) \<noteq> 100 * 4 / 1500"
  using example_rounded by (simp add: split_rounded_line example_double_def)

subsection \<open>Exceptions in the loop over the input files\<close>

lemma BlastResult_init_short:
  assumes "length (split_on tab hit_string) < 12"
  shows "\<exists>e. BlastResult_init py_int floats hit_string = Inl e"
proof (cases "BlastResult_init py_int floats hit_string")
  case (Inl e)
  then show ?thesis by blast
next
  case (Inr hit)
  from BlastResult_init_Inr [OF this] assms show ?thesis by auto
qed

lemma blast_hits_loop_short_line:
  assumes "line \<in> set lines" and "length (split_on tab line) < 12"
  shows "\<exists>e. blast_hits_loop py_int floats lines blast_hits = Inl e"
  using assms
proof (induction lines arbitrary: blast_hits)
  case Nil
  then show ?case by simp
next
  case (Cons l rest)
  show ?case
  proof (cases "BlastResult_init py_int floats l")
    case (Inl e)
    then show ?thesis by (simp add: ebind_def)
  next
    case (Inr hit)
    with BlastResult_init_short [of l py_int floats] Cons.prems
    have "line \<in> set rest" by auto
    from Cons.IH [OF this Cons.prems(2)] Inr show ?thesis by (simp add: ebind_def)
  qed
qed

lemma best_match_loop_miss:
  assumes "\<exists>hit \<in> set (accepted hits best_pident best_cov). database (qseqid hit) = None"
  shows "best_match_loop database hits best_match best_cov best_pident = Inl KeyError"
  using assms
proof (induction hits arbitrary: best_match best_cov best_pident)
  case Nil
  then show ?case by simp
next
  case (Cons hit hits)
  show ?case
  proof (cases "1000 \<le> length_hit hit \<and> pident hit \<ge> best_pident \<and> query_cov hit \<ge> best_cov")
    case False
    with Cons.prems
    have "\<exists>h \<in> set (accepted hits best_pident best_cov). database (qseqid h) = None"
      by auto
    from Cons.IH [OF this] False show ?thesis by auto
  next
    case True
    show ?thesis
    proof (cases "database (qseqid hit)")
      case None
      with True show ?thesis by (simp add: ebind_def getitem_def)
    next
      case (Some name)
      with Cons.prems True
      have "\<exists>h \<in> set (accepted hits (pident hit) (query_cov hit)). database (qseqid h) = None"
        by auto
      from Cons.IH [OF this] True Some show ?thesis by (simp add: ebind_def getitem_def)
    qed
  qed
qed

lemma get_best_result_eq:
  "get_best_result py_int floats blastn inputfile refs threads database w =
     (ebind (blast_hits_loop py_int floats (line_iterator (blastn inputfile refs threads)) [])
        (\<lambda>blast_hits. best_match_loop database blast_hits [] 0 0), w)"
  by (simp add: get_best_result_def Let_def str_eq_int_def)

lemma main_loop_append:
  "main_loop py_int floats blastn (pre @ rest) refs threads database outdir w =
     (case main_loop py_int floats blastn pre refs threads database outdir w of
        (None, w') \<Rightarrow> main_loop py_int floats blastn rest refs threads database outdir w'
      | (Some e, w') \<Rightarrow> (Some e, w'))"
  by (induction pre arbitrary: w) (auto split: prod.splits sum.splits option.splits)

text \<open>
  Claim C3, as amended. The source has no exception handler. When the files before an
  input file have been processed and that file has a malformed hit record (a yielded line
  of fewer than 12 tab-delimited fields, or a hit that the scan accepts and whose query id
  the reference index does not hold), the exception ends the whole run: the world stays as
  the earlier files left it, with no row and no summary for that file nor for any file
  after it.
\<close>

theorem malformed_record_aborts_run:
  assumes "main_loop py_int floats blastn pre refs threads database outdir w = (None, w')"
    and "(\<exists>line \<in> set (line_iterator (blastn inputfile refs threads)).
            length (split_on tab line) < 12) \<or>
         (\<exists>hits. blast_hits_loop py_int floats
                    (line_iterator (blastn inputfile refs threads)) [] = Inr hits \<and>
                 (\<exists>hit \<in> set (accepted hits 0 0). database (qseqid hit) = None))"
  shows "\<exists>e. main_loop py_int floats blastn (pre @ inputfile # rest) refs threads database
                outdir w = (Some e, w')"
proof -
  have "\<exists>e. get_best_result py_int floats blastn inputfile refs threads database w' = (Inl e, w')"
    using assms(2)
  proof
    assume "\<exists>line \<in> set (line_iterator (blastn inputfile refs threads)).
      length (split_on tab line) < 12"
    then obtain line where "line \<in> set (line_iterator (blastn inputfile refs threads))"
      and "length (split_on tab line) < 12" by blast
    from blast_hits_loop_short_line [OF this, of py_int floats "[]"]
    show ?thesis by (auto simp: get_best_result_eq ebind_def)
  next
    assume "\<exists>hits. blast_hits_loop py_int floats
                    (line_iterator (blastn inputfile refs threads)) [] = Inr hits \<and>
                 (\<exists>hit \<in> set (accepted hits 0 0). database (qseqid hit) = None)"
    then obtain hits where
      h: "blast_hits_loop py_int floats (line_iterator (blastn inputfile refs threads)) [] = Inr hits"
      and "\<exists>hit \<in> set (accepted hits 0 0). database (qseqid hit) = None" by blast
    from best_match_loop_miss [OF this(2), of "[]"] h
    show ?thesis by (simp add: get_best_result_eq ebind_def)
  qed
  then obtain e where
    "get_best_result py_int floats blastn inputfile refs threads database w' = (Inl e, w')"
    by blast
  then have "main_loop py_int floats blastn (inputfile # rest) refs threads database outdir w'
      = (Some e, w')" by simp
  with assms(1) show ?thesis by (simp add: main_loop_append del: main_loop.simps)
qed

lemma lines_a: "line_iterator (example_blastn ''a.fasta'' refs threads) = [short_line]"
  by (simp add: line_iterator_split example_blastn_def short_line_def newline_def tab_def)

lemma lines_b: "line_iterator (example_blastn ''b.fasta'' refs threads) =
    [example_line ''X'' ''1200'' ''1600'' ''ACGT'']"
  by (simp add: line_iterator_split example_blastn_def example_line_def newline_def tab_def)

lemma lines_c: "line_iterator (example_blastn ''c.fasta'' refs threads) =
    [example_line ''Q'' ''1200'' ''1600'' ''ACGT'']"
  by (simp add: line_iterator_split example_blastn_def example_line_def newline_def tab_def)

lemma lines_d: "line_iterator (example_blastn ''d.fasta'' refs threads) =
    [example_line ''Q'' ''500'' ''1600'' ''ACGT'']"
  by (simp add: line_iterator_split example_blastn_def example_line_def newline_def tab_def)

lemma split_a: "split_on tab short_line = [''X'', ''contig_1'']"
  by (simp add: short_line_def tab_def)

lemma hit_b: "BlastResult_init example_int example_floats (example_line ''X'' ''1200'' ''1600'' ''ACGT'') =
    Inr \<lparr>qseqid = ''X'', length_hit = 1200, pident = 99.5, query_cov = 1 / 4\<rparr>"
  by (simp add: example_line_def tab_def BlastResult_init_def Let_def ebind_def item_def
      converted_def divided_def example_int_def example_floats_def)

lemma hit_c: "BlastResult_init example_int example_floats (example_line ''Q'' ''1200'' ''1600'' ''ACGT'') =
    Inr \<lparr>qseqid = ''Q'', length_hit = 1200, pident = 99.5, query_cov = 1 / 4\<rparr>"
  by (simp add: example_line_def tab_def BlastResult_init_def Let_def ebind_def item_def
      converted_def divided_def example_int_def example_floats_def)

lemma hit_d: "BlastResult_init example_int example_floats (example_line ''Q'' ''500'' ''1600'' ''ACGT'') =
    Inr \<lparr>qseqid = ''Q'', length_hit = 500, pident = 99.5, query_cov = 1 / 4\<rparr>"
  by (simp add: example_line_def tab_def BlastResult_init_def Let_def ebind_def item_def
      converted_def divided_def example_int_def example_floats_def)

lemma result_a:
  "get_best_result example_int example_floats example_blastn ''a.fasta'' refs threads database w
     = (Inl IndexError, w)"
  by (simp add: get_best_result_eq lines_a split_a BlastResult_init_def Let_def ebind_def item_def)

lemma result_b:
  "get_best_result example_int example_floats example_blastn ''b.fasta'' refs threads
     example_database w = (Inr [''Species A''], w)"
  by (simp add: get_best_result_eq lines_b hit_b ebind_def getitem_def example_database_def)

lemma result_c:
  "get_best_result example_int example_floats example_blastn ''c.fasta'' refs threads
     example_database w = (Inl KeyError, w)"
  by (simp add: get_best_result_eq lines_c hit_c ebind_def getitem_def example_database_def)

lemma result_d:
  "get_best_result example_int example_floats example_blastn ''d.fasta'' refs threads
     example_database w = (Inr [], w)"
  by (simp add: get_best_result_eq lines_d hit_d ebind_def getitem_def example_database_def)

text \<open>
  Claim C3 as stated fails. Alone, \<open>b.fasta\<close> is reported; after \<open>a.fasta\<close>, whose output has
  a line of two fields, or after \<open>c.fasta\<close>, whose accepted hit has an unknown query id, the
  run ends with the exception and \<open>b.fasta\<close> is neither processed nor reported. A lookup
  miss of a hit that the length filter skips (\<open>d.fasta\<close>) raises nothing.
\<close>

theorem later_files_not_processed:
  "main_loop example_int example_floats example_blastn [''b.fasta''] ''reference_database'' 4
     example_database ''BS_results.txt'' empty_world =
     (None, report ''BS_results.txt'' [''b.fasta'', ''Species A''] ''b.fasta: Species A'' empty_world) \<and>
   main_loop example_int example_floats example_blastn [''a.fasta'', ''b.fasta''] ''reference_database'' 4
     example_database ''BS_results.txt'' empty_world = (Some IndexError, empty_world) \<and>
   main_loop example_int example_floats example_blastn [''c.fasta'', ''b.fasta''] ''reference_database'' 4
     example_database ''BS_results.txt'' empty_world = (Some KeyError, empty_world) \<and>
   example_database ''Q'' = None \<and>
   main_loop example_int example_floats example_blastn [''d.fasta'', ''b.fasta''] ''reference_database'' 4
     example_database ''BS_results.txt'' empty_world =
     (None, report ''BS_results.txt'' [''b.fasta'', ''Species A''] ''b.fasta: Species A''
        (report ''BS_results.txt'' [''d.fasta'', ''NA'', ''Unavailable''] ''d.fasta: Unavailable''
           empty_world))"
proof -
  have "example_database ''Q'' = None" by (simp add: example_database_def)
  then show ?thesis
    by (simp add: result_a result_b result_c result_d output_report_report output_line_def
        simple_output_def)
qed

lemma pre_b:
  "main_loop example_int example_floats example_blastn [''b.fasta''] ''reference_database'' 4
     example_database ''BS_results.txt'' empty_world =
     (None, report ''BS_results.txt'' [''b.fasta'', ''Species A''] ''b.fasta: Species A'' empty_world)"
  by (simp add: result_b output_report_report output_line_def simple_output_def)

lemma short_a:
  "\<exists>line \<in> set (line_iterator (example_blastn ''a.fasta'' ''reference_database'' 4)).
     length (split_on tab line) < 12"
  by (simp add: lines_a split_a)

lemma miss_c:
  "\<exists>hits. blast_hits_loop example_int example_floats
      (line_iterator (example_blastn ''c.fasta'' ''reference_database'' 4)) [] = Inr hits \<and>
    (\<exists>hit \<in> set (accepted hits 0 0). example_database (qseqid hit) = None)"
  by (simp add: lines_c hit_c ebind_def example_database_def)

theorem malformed_record_aborts_run_witness:
  "main_loop example_int example_floats example_blastn [''b.fasta'', ''a.fasta'', ''b.fasta'']
     ''reference_database'' 4 example_database ''BS_results.txt'' empty_world =
     (Some IndexError,
      report ''BS_results.txt'' [''b.fasta'', ''Species A''] ''b.fasta: Species A'' empty_world) \<and>
   main_loop example_int example_floats example_blastn [''b.fasta'', ''c.fasta'', ''b.fasta'']
     ''reference_database'' 4 example_database ''BS_results.txt'' empty_world =
     (Some KeyError,
      report ''BS_results.txt'' [''b.fasta'', ''Species A''] ''b.fasta: Species A'' empty_world)"
  using malformed_record_aborts_run [OF pre_b disjI1 [OF short_a], of "[''b.fasta'']"]
    malformed_record_aborts_run [OF pre_b disjI2 [OF miss_c], of "[''b.fasta'']"]
  by (simp add: result_a result_b result_c output_report_report output_line_def simple_output_def)

end
